theory Spec2Isabelle
  imports Complex_Main "HOL-Library.Word"
begin

unbundle bit_operations_syntax

section \<open>Strings and bytes\<close>

text \<open>
  Go strings and byte slices are sequences of bytes; both are modelled as \<open>string\<close>
  (a list of 8-bit characters). The functions of this section are the functions of the
  Go packages \<open>strings\<close>, \<open>bytes\<close> and \<open>strconv\<close> that the decoder calls, written
  out for the arguments the decoder passes.
\<close>

definition LF :: char where
  "LF = CHR 0x0A"

definition CR :: char where
  "CR = CHR 0x0D"

definition HasPrefix :: "string \<Rightarrow> string \<Rightarrow> bool" where
  "HasPrefix s p = (take (length p) s = p)"

definition HasSuffix :: "string \<Rightarrow> string \<Rightarrow> bool" where
  "HasSuffix s p = (length p \<le> length s \<and> drop (length s - length p) s = p)"

text \<open>\<open>strings.Split(s, sep)\<close> for a separator of one byte: never an empty list.\<close>

fun Split :: "string \<Rightarrow> char \<Rightarrow> string list" where
  "Split [] sep = [[]]"
| "Split (c # cs) sep =
     (if c = sep then [] # Split cs sep
      else (case Split cs sep of
              [] \<Rightarrow> [[c]]
            | b # bs \<Rightarrow> (c # b) # bs))"

text \<open>\<open>strings.SplitN(s, sep, 2)\<close> for a separator of one byte: at most two parts,
  cut at the first separator.\<close>

definition SplitN2 :: "string \<Rightarrow> char \<Rightarrow> string list" where
  "SplitN2 s sep =
     (if sep \<in> set s
      then [takeWhile (\<lambda>c. c \<noteq> sep) s, tl (dropWhile (\<lambda>c. c \<noteq> sep) s)]
      else [s])"

text \<open>
  \<open>strings.TrimSpace\<close> and \<open>bytes.TrimSpace\<close> remove leading and trailing white space
  as Unicode defines it: the six ASCII characters, and the UTF-8 encodings of U+0085,
  U+00A0, U+1680, U+2000 to U+200A, U+2028, U+2029, U+202F, U+205F and U+3000. A byte
  that starts no such encoding is not white space.
\<close>

definition spaceSeqs :: "string list" where
  "spaceSeqs =
     [[CHR 0x09], [CHR 0x0A], [CHR 0x0B], [CHR 0x0C], [CHR 0x0D], [CHR 0x20],
      [CHR 0xC2, CHR 0x85], [CHR 0xC2, CHR 0xA0],
      [CHR 0xE1, CHR 0x9A, CHR 0x80],
      [CHR 0xE2, CHR 0x80, CHR 0x80], [CHR 0xE2, CHR 0x80, CHR 0x81],
      [CHR 0xE2, CHR 0x80, CHR 0x82], [CHR 0xE2, CHR 0x80, CHR 0x83],
      [CHR 0xE2, CHR 0x80, CHR 0x84], [CHR 0xE2, CHR 0x80, CHR 0x85],
      [CHR 0xE2, CHR 0x80, CHR 0x86], [CHR 0xE2, CHR 0x80, CHR 0x87],
      [CHR 0xE2, CHR 0x80, CHR 0x88], [CHR 0xE2, CHR 0x80, CHR 0x89],
      [CHR 0xE2, CHR 0x80, CHR 0x8A],
      [CHR 0xE2, CHR 0x80, CHR 0xA8], [CHR 0xE2, CHR 0x80, CHR 0xA9],
      [CHR 0xE2, CHR 0x80, CHR 0xAF],
      [CHR 0xE2, CHR 0x81, CHR 0x9F],
      [CHR 0xE3, CHR 0x80, CHR 0x80]]"

text \<open>The length of the white-space character a string starts with, 0 when it starts
  with none.\<close>

definition leadingSpace :: "string \<Rightarrow> nat" where
  "leadingSpace s =
     (case filter (\<lambda>p. HasPrefix s p) spaceSeqs of
        [] \<Rightarrow> 0
      | p # _ \<Rightarrow> length p)"

definition trailingSpace :: "string \<Rightarrow> nat" where
  "trailingSpace s =
     (case filter (\<lambda>p. HasSuffix s p) spaceSeqs of
        [] \<Rightarrow> 0
      | p # _ \<Rightarrow> length p)"

function TrimLeft :: "string \<Rightarrow> string" where
  "TrimLeft s = (if leadingSpace s = 0 \<or> s = [] then s else TrimLeft (drop (leadingSpace s) s))"
  by pat_completeness auto
termination
  by (relation "measure length") auto

function TrimRight :: "string \<Rightarrow> string" where
  "TrimRight s =
     (if trailingSpace s = 0 \<or> s = [] then s
      else TrimRight (take (length s - trailingSpace s) s))"
  by pat_completeness auto
termination
  by (relation "measure length") auto

definition TrimSpace :: "string \<Rightarrow> string" where
  "TrimSpace s = TrimRight (TrimLeft s)"

section \<open>Errors\<close>

text \<open>
  Every error of the decoder is a Go \<open>error\<close> made from a message; one constructor
  stands for each message, with the values the message is formatted from. \<open>IOError\<close>
  is an error of the byte source, passed on as it is.
\<close>

datatype unit_error =
    NotAUnit string
  | CouldNotParseAmount
  | UnknownUnit string

datatype error =
    IOError string
  | HeaderLineTooShort
  | LineAfterHeaderNotBlank
  | CouldNotParseChecksum
  | CRCMismatch
  | MalformedArgument string
  | MultipleOccurances string
  | MissingData string
  | WrongNumberOfArguments string
  | IntCouldNotParseAmount string
  | GasValueError string unit_error
  | UnitError string unit_error

text \<open>The result of a function that returns a value or an error, or panics.\<close>

datatype 'a result = Panic | Failed error | Ok 'a

section \<open>The line splitter: \<open>parseLines\<close>\<close>

text \<open>\<open>parseLines\<close> (lines 224 to 262 of the decoder's source) returns a map from the
  codes to their lists of arguments. A Go map is a reference: what \<open>fillStruct\<close> deletes
  from it is gone for the caller too, so the functions below hand the map on.\<close>

type_synonym data = "string \<rightharpoonup> string list"

text \<open>
  The first loop of \<open>parseLines\<close>: a raw line that begins with \<open>(\<close> is appended onto
  \<open>lines[len(lines)-1]\<close>, any other raw line becomes a new element. The index is
  computed on \<open>int\<close>, as Go does, and an index out of range is a panic (\<open>None\<close>).
\<close>

fun mergeLines :: "string list \<Rightarrow> string list \<Rightarrow> string list option" where
  "mergeLines lines [] = Some lines"
| "mergeLines lines (sRawLine # rest) =
     (if HasPrefix sRawLine ''(''
      then (let i = int (length lines) - 1
            in if i < 0 \<or> int (length lines) \<le> i then None
               else mergeLines (lines[nat i := lines ! nat i @ sRawLine]) rest)
      else mergeLines (lines @ [sRawLine]) rest)"

text \<open>The inner loop over \<open>bits[1:]\<close>: every argument ends with \<open>)\<close>, which is cut off.\<close>

fun parseArgs :: "string \<Rightarrow> string list \<Rightarrow> string list \<Rightarrow> error + string list" where
  "parseArgs line args [] = Inr args"
| "parseArgs line args (arg # rest) =
     (if \<not> HasSuffix arg '')'' then Inl (MalformedArgument line)
      else parseArgs line (args @ [take (length arg - 1) arg]) rest)"

text \<open>The second loop of \<open>parseLines\<close>, over the merged lines, filling the map \<open>ret\<close>.\<close>

fun parseEach :: "data \<Rightarrow> string list \<Rightarrow> data result" where
  "parseEach ret [] = Ok ret"
| "parseEach ret (line # rest) =
     (case Split line (CHR ''('') of
        [] \<Rightarrow> Panic
      | obis # bits1 \<Rightarrow>
          (case parseArgs line [] bits1 of
             Inl e \<Rightarrow> Failed e
           | Inr args \<Rightarrow>
               (case ret obis of
                  Some _ \<Rightarrow> Failed (MultipleOccurances obis)
                | None \<Rightarrow> parseEach (ret(obis \<mapsto> args)) rest)))"

definition parseLines :: "string list \<Rightarrow> data result" where
  "parseLines rawLines =
     (case mergeLines [] rawLines of
        None \<Rightarrow> Panic
      | Some lines \<Rightarrow> parseEach Map.empty lines)"

section \<open>Numbers\<close>

text \<open>
  \<open>strconv.ParseInt(s, 16, 32)\<close> and \<open>strconv.Atoi(s)\<close>: an optional sign, then one
  or more digits of the base and nothing else (with an explicit base, no prefix and no
  underscore is accepted). \<open>None\<close> stands for a returned error, which is a syntax
  error or a value out of the range of the bit size. \<open>Atoi\<close> parses an \<open>int\<close>, taken
  to be 64 bits wide.
\<close>

definition digitVal :: "char \<Rightarrow> int option" where
  "digitVal c =
     (let n = (of_char c :: int)
      in if 48 \<le> n \<and> n \<le> 57 then Some (n - 48)
         else if 97 \<le> n \<and> n \<le> 122 then Some (n - 97 + 10)
         else if 65 \<le> n \<and> n \<le> 90 then Some (n - 65 + 10)
         else None)"

fun parseDigits :: "int \<Rightarrow> int \<Rightarrow> string \<Rightarrow> int option" where
  "parseDigits base acc [] = Some acc"
| "parseDigits base acc (c # cs) =
     (case digitVal c of
        None \<Rightarrow> None
      | Some d \<Rightarrow> if base \<le> d then None else parseDigits base (acc * base + d) cs)"

definition ParseInt :: "string \<Rightarrow> int \<Rightarrow> nat \<Rightarrow> int option" where
  "ParseInt s base bitSize =
     (if s = [] then None
      else let neg = (hd s = CHR ''-'');
               s1 = (if hd s = CHR ''+'' \<or> hd s = CHR ''-'' then tl s else s)
           in if s1 = [] then None
              else (case parseDigits base 0 s1 of
                      None \<Rightarrow> None
                    | Some un \<Rightarrow>
                        let n = (if neg then - un else un)
                        in if n < - (2 ^ (bitSize - 1)) \<or> 2 ^ (bitSize - 1) - 1 < n then None
                           else Some n))"

definition Atoi :: "string \<Rightarrow> int option" where
  "Atoi s = ParseInt s 10 64"

section \<open>The checksum\<close>

text \<open>
  \<open>crc\<close> (lines 186 to 188) calls \<open>crc16.Update\<close> with \<open>crc16.IBMTable\<close>. Package
  \<open>crc16\<close> (github.com/howeyc/crc16) is a library outside the repository. Its table for
  a reversed polynomial holds, for every byte, the byte shifted right eight times with
  the polynomial added in whenever a one is shifted out; \<open>Update\<close> inverts the given
  checksum, folds every byte in through the table and inverts the result.
\<close>

definition IBM :: "16 word" where
  "IBM = 0xA001"

definition tableStep :: "16 word \<Rightarrow> 16 word \<Rightarrow> 16 word" where
  "tableStep poly crc = (if crc AND 1 = 1 then drop_bit 1 crc XOR poly else drop_bit 1 crc)"

definition makeTable :: "16 word \<Rightarrow> 8 word \<Rightarrow> 16 word" where
  "makeTable poly i = ((tableStep poly) ^^ 8) (ucast i)"

definition IBMTable :: "8 word \<Rightarrow> 16 word" where
  "IBMTable = makeTable IBM"

fun update :: "16 word \<Rightarrow> (8 word \<Rightarrow> 16 word) \<Rightarrow> string \<Rightarrow> 16 word" where
  "update crc tab [] = crc"
| "update crc tab (v # p) = update (tab (ucast crc XOR of_char v) XOR drop_bit 8 crc) tab p"

definition crc16_Update :: "16 word \<Rightarrow> (8 word \<Rightarrow> 16 word) \<Rightarrow> string \<Rightarrow> 16 word" where
  "crc16_Update crc tab p = NOT (update (NOT crc) tab p)"

definition crc :: "string \<Rightarrow> 16 word" where
  "crc data = crc16_Update 0xffff IBMTable data XOR 0xffff"

section \<open>32-bit floating point\<close>

text \<open>
  A \<open>float32\<close> is a rational number, an infinity or not a number; the sign of zero is
  left out. \<open>round32\<close> rounds a rational to the nearest number with a significand of 24
  bits and an exponent from -126 to 127, ties to the even significand, and to an infinity
  from \<open>2 ^ 128\<close> on: the rounding of IEEE 754 that Go's arithmetic on \<open>float32\<close> applies
  to every exact result.
\<close>

datatype float32 = Finite rat | PosInf | NegInf | NaN

definition roundHalfEven :: "rat \<Rightarrow> int" where
  "roundHalfEven q =
     (let f = \<lfloor>q\<rfloor>; d = q - of_int f
      in if d < 1 / 2 then f
         else if 1 / 2 < d then f + 1
         else if even f then f else f + 1)"

definition pow2 :: "int \<Rightarrow> rat" where
  "pow2 e = (if 0 \<le> e then 2 ^ nat e else 1 / 2 ^ nat (- e))"

text \<open>The exponent of a positive rational: the largest \<open>e\<close> from -126 to \<open>hi\<close> with
  \<open>2 ^ e \<le> a\<close>, and -126 when there is none.\<close>

function exponent32 :: "rat \<Rightarrow> int \<Rightarrow> int" where
  "exponent32 a hi =
     (if hi \<le> - 126 then - 126
      else if pow2 hi \<le> a then hi
      else exponent32 a (hi - 1))"
  by pat_completeness auto
termination
  by (relation "measure (\<lambda>(a, hi). nat (hi + 126))") auto

definition round32 :: "rat \<Rightarrow> float32" where
  "round32 x =
     (let a = \<bar>x\<bar>;
          ulp = pow2 (exponent32 a 127 - 23);
          r = of_int (roundHalfEven (a / ulp)) * ulp
      in if pow2 128 \<le> r then (if x < 0 then NegInf else PosInf)
         else Finite (if x < 0 then - r else r))"

fun mul32 :: "float32 \<Rightarrow> float32 \<Rightarrow> float32" where
  "mul32 (Finite a) (Finite b) = round32 (a * b)"
| "mul32 NaN y = NaN"
| "mul32 x NaN = NaN"
| "mul32 (Finite a) PosInf = (if a = 0 then NaN else if 0 < a then PosInf else NegInf)"
| "mul32 (Finite a) NegInf = (if a = 0 then NaN else if 0 < a then NegInf else PosInf)"
| "mul32 PosInf (Finite b) = (if b = 0 then NaN else if 0 < b then PosInf else NegInf)"
| "mul32 NegInf (Finite b) = (if b = 0 then NaN else if 0 < b then NegInf else PosInf)"
| "mul32 PosInf PosInf = PosInf"
| "mul32 PosInf NegInf = NegInf"
| "mul32 NegInf PosInf = NegInf"
| "mul32 NegInf NegInf = PosInf"

section \<open>The unit normalizer: \<open>parseUnit\<close>\<close>

definition normalizedUnits :: "string \<rightharpoonup> float32" where
  "normalizedUnits =
     [''kWh'' \<mapsto> Finite 1,
      ''kW'' \<mapsto> Finite 1000,
      ''W'' \<mapsto> Finite 1,
      ''s'' \<mapsto> Finite 1,
      ''m3'' \<mapsto> Finite 1,
      ''A'' \<mapsto> Finite 1,
      ''V'' \<mapsto> Finite 1]"

text \<open>
  \<open>parseUnit\<close> (lines 365 to 379) with its table \<open>normalizedUnits\<close> (lines 100 to 108).
  \<open>strconv.ParseFloat(s, 32)\<close> belongs to Go's library, and what it accepts has changed
  between versions of Go; it is the parameter \<open>ParseFloat\<close> of \<open>parseUnit\<close> and of
  every function that calls it. \<open>ParseFloat s = None\<close> stands for a returned error,
  \<open>Some x\<close> for the \<open>float32\<close> that the returned \<open>float64\<close> converts to without a
  change of value.
\<close>

type_synonym parseFloat = "string \<Rightarrow> float32 option"

definition parseUnit :: "parseFloat \<Rightarrow> string \<Rightarrow> unit_error + float32" where
  "parseUnit ParseFloat v =
     (let bits = SplitN2 v (CHR ''*'')
      in if length bits \<noteq> 2 then Inl (NotAUnit v)
         else (case ParseFloat (bits ! 0) of
                 None \<Rightarrow> Inl CouldNotParseAmount
               | Some amount \<Rightarrow>
                   (case normalizedUnits (bits ! 1) of
                      None \<Rightarrow> Inl (UnknownUnit v)
                    | Some factor \<Rightarrow> Inr (mul32 amount factor))))"

section \<open>Struct types and values, as package \<open>reflect\<close> sees them\<close>

text \<open>
  \<open>fillStruct\<close> works on any struct through package \<open>reflect\<close>: it walks the
  fields of the struct's type, reads their tags and kinds, and stores into the fields of
  the struct's value by index. So a struct type is the list of its fields, and a struct
  value is the list of its fields' values. \<open>TTariff\<close> is the type \<open>Tariff\<close>, of kind
  \<open>Int32\<close>; a struct type is given by the types of its fields.
\<close>

datatype gotype =
    TString
  | TInt32
  | TTariff
  | TFloat32
  | TStruct "gotype list"
  | TMap
  | TPtr gotype

datatype kind = String | Int32 | Float32 | Struct | Map | Ptr

fun Kind :: "gotype \<Rightarrow> kind" where
  "Kind TString = String"
| "Kind TInt32 = Int32"
| "Kind TTariff = Int32"
| "Kind TFloat32 = Float32"
| "Kind (TStruct ts) = Struct"
| "Kind TMap = Map"
| "Kind (TPtr t) = Ptr"

datatype val =
    VString string
  | VInt "32 word"
  | VFloat float32
  | VStruct "val list"
  | VMap data
  | VPtr "val option"

text \<open>The zero value of a type; a nil map reads as the empty map.\<close>

fun zero :: "gotype \<Rightarrow> val" where
  "zero TString = VString []"
| "zero TInt32 = VInt 0"
| "zero TTariff = VInt 0"
| "zero TFloat32 = VFloat (Finite 0)"
| "zero (TStruct ts) = VStruct (map zero ts)"
| "zero TMap = VMap Map.empty"
| "zero (TPtr t) = VPtr None"

text \<open>A field of a struct type: its name, its type, and its tags \<open>obis\<close> (\<open>None\<close>
  when the field has none) and \<open>type\<close> (empty when the field has none).\<close>

record StructField =
  Name :: string
  Type :: gotype
  obisTag :: "string option"
  typeTag :: string

definition untagged :: "string \<Rightarrow> gotype \<Rightarrow> StructField" where
  "untagged n t = \<lparr>Name = n, Type = t, obisTag = None, typeTag = []\<rparr>"

definition tagged :: "string \<Rightarrow> gotype \<Rightarrow> string \<Rightarrow> string \<Rightarrow> StructField" where
  "tagged n t obis typ = \<lparr>Name = n, Type = t, obisTag = Some obis, typeTag = typ\<rparr>"

definition zeroStruct :: "StructField list \<Rightarrow> val list" where
  "zeroStruct st = map (\<lambda>f. zero (Type f)) st"

definition structType :: "StructField list \<Rightarrow> gotype" where
  "structType st = TStruct (map Type st)"

text \<open>The index of the field of a name, for the assignments that name a field.\<close>

fun fieldIndex :: "StructField list \<Rightarrow> string \<Rightarrow> nat" where
  "fieldIndex [] n = 0"
| "fieldIndex (f # fs) n = (if Name f = n then 0 else Suc (fieldIndex fs n))"

subsection \<open>The struct types of the decoder\<close>

definition ElectricityData :: "StructField list" where
  "ElectricityData =
     [tagged ''KWh'' TFloat32 ''1-0:1.8.2'' ''unit'',
      tagged ''KWhLow'' TFloat32 ''1-0:1.8.1'' ''unit'',
      tagged ''KWhOut'' TFloat32 ''1-0:2.8.2'' ''unit'',
      tagged ''KWhOutLow'' TFloat32 ''1-0:2.8.1'' ''unit'',
      tagged ''Tariff'' TTariff ''0-0:96.14.0'' ''int'',
      tagged ''W'' TFloat32 ''1-0:1.7.0'' ''unit'',
      tagged ''WOut'' TFloat32 ''1-0:2.7.0'' ''unit'',
      tagged ''Threshold'' (TPtr TFloat32) ''0-0:17.0.0'' ''unit'',
      tagged ''Switch'' (TPtr TString) ''0-0:96.3.10'' ''id'',
      tagged ''PowerFailures'' TInt32 ''0-0:96.7.21'' ''int'',
      tagged ''LongPowerFailures'' TInt32 ''0-0:96.7.9'' ''int'',
      tagged ''PowerFailuresLog'' TString ''1-0:99.97.0'' ''log'',
      tagged ''L1VoltageSags'' TInt32 ''1-0:32.32.0'' ''int'',
      tagged ''L1VoltageSwells'' TInt32 ''1-0:32.36.0'' ''int'',
      tagged ''L1Current'' TFloat32 ''1-0:31.7.0'' ''unit'',
      tagged ''L1Voltage'' (TPtr TFloat32) ''1-0:32.7.0'' ''unit'',
      tagged ''L1Power'' TFloat32 ''1-0:21.7.0'' ''unit'',
      tagged ''L1PowerOut'' TFloat32 ''1-0:22.7.0'' ''unit'']"

definition MultiphaseElectricityData :: "StructField list" where
  "MultiphaseElectricityData =
     [tagged ''L2VoltageSags'' TInt32 ''1-0:52.32.0'' ''int'',
      tagged ''L2VoltageSwells'' TInt32 ''1-0:52.36.0'' ''int'',
      tagged ''L2Current'' TFloat32 ''1-0:51.7.0'' ''unit'',
      tagged ''L2Voltage'' (TPtr TFloat32) ''1-0:52.7.0'' ''unit'',
      tagged ''L2Power'' TFloat32 ''1-0:41.7.0'' ''unit'',
      tagged ''L2PowerOut'' TFloat32 ''1-0:42.7.0'' ''unit'',
      tagged ''L3VoltageSags'' TInt32 ''1-0:72.32.0'' ''int'',
      tagged ''L3VoltageSwells'' TInt32 ''1-0:72.36.0'' ''int'',
      tagged ''L3Current'' TFloat32 ''1-0:71.7.0'' ''unit'',
      tagged ''L3Voltage'' (TPtr TFloat32) ''1-0:72.7.0'' ''unit'',
      tagged ''L3Power'' TFloat32 ''1-0:61.7.0'' ''unit'',
      tagged ''L3PowerOut'' TFloat32 ''1-0:62.7.0'' ''unit'']"

definition GasRecord :: "StructField list" where
  "GasRecord =
     [untagged ''TimeStamp'' TString,
      untagged ''Value'' TFloat32]"

definition GasData :: "StructField list" where
  "GasData =
     [tagged ''Type'' TString ''0-1:24.1.0'' ''id'',
      tagged ''Id'' TString ''0-1:96.1.0'' ''id'',
      tagged ''Switch'' (TPtr TString) ''0-1:24.4.0'' ''id'',
      tagged ''LastRecord'' (structType GasRecord) ''0-1:24.2.1'' ''gasrecord'']"

definition Telegram :: "StructField list" where
  "Telegram =
     [untagged ''HeaderMarker'' TString,
      untagged ''HeaderId'' TString,
      untagged ''Electricity'' (TPtr (structType ElectricityData)),
      untagged ''MultiphaseElectricity'' (TPtr (structType MultiphaseElectricityData)),
      untagged ''Gas'' (TPtr (structType GasData)),
      tagged ''P1Version'' TString ''1-3:0.2.8'' ''id'',
      tagged ''TimeStamp'' TString ''0-0:1.0.0'' ''id'',
      tagged ''ID'' TString ''0-0:96.1.1'' ''id'',
      tagged ''MsgNumeric'' (TPtr TString) ''0-0:96.13.1'' ''id'',
      tagged ''MsgTxt'' (TPtr TString) ''0-0:96.13.0'' ''id'',
      untagged ''Other'' TMap]"

section \<open>The decoder: \<open>fillStruct\<close>\<close>

text \<open>
  The state of the loop of \<open>fillStruct\<close>: the struct's value \<open>sv\<close>, the map \<open>data\<close>
  (which the caller shares, and which loses every code that is looked up and found) and
  the errors \<open>ret\<close> collected so far.
\<close>

type_synonym fillState = "val list \<times> data \<times> error list"

text \<open>
  A store through \<open>field\<close>, which is the field itself, or what the field points to once
  \<open>field = reflect.Indirect(field)\<close> has run for a field that is a pointer.
\<close>

definition store :: "StructField \<Rightarrow> nat \<Rightarrow> val \<Rightarrow> val list \<Rightarrow> val list" where
  "store fieldType i v sv =
     (if Kind (Type fieldType) = Ptr then sv[i := VPtr (Some v)] else sv[i := v])"

text \<open>The type of what \<open>field\<close> is after the indirection.\<close>

definition fieldElem :: "StructField \<Rightarrow> gotype" where
  "fieldElem fieldType = (case Type fieldType of TPtr t \<Rightarrow> t | t \<Rightarrow> t)"

text \<open>
  One iteration of the loop of \<open>fillStruct\<close> (lines 383 to 460), for the field of index
  \<open>i\<close>: nothing for a field without the tag \<open>obis\<close>; an error, or nothing for a
  pointer, when the code is not in the map; otherwise the code is deleted, a pointer is
  set to a fresh zero value, and the arguments are decoded as the tag \<open>type\<close> says, a
  \<open>continue\<close> after an error being the state returned with the error appended. A tag
  \<open>type\<close> that is none of the four cases stores nothing. \<open>None\<close> is a
  panic: \<open>SetString\<close>, \<open>SetInt\<close>, \<open>SetFloat\<close> and \<open>Set\<close> panic on a field of another
  kind or type than the value stored. \<open>SetInt\<close> on a field of 32 bits keeps the low 32
  bits of the integer.
\<close>

definition fillField :: "parseFloat \<Rightarrow> StructField \<Rightarrow> nat \<Rightarrow> fillState \<Rightarrow> fillState option" where
  "fillField ParseFloat fieldType i state =
     (case state of (sv, data, ret) \<Rightarrow>
      (case obisTag fieldType of
         None \<Rightarrow> Some (sv, data, ret)
       | Some obis \<Rightarrow>
          (case data obis of
             None \<Rightarrow>
               (if Kind (Type fieldType) \<noteq> Ptr
                then Some (sv, data, ret @ [MissingData obis])
                else Some (sv, data, ret))
           | Some args \<Rightarrow>
               (let data = data(obis := None);
                    sv = (if Kind (Type fieldType) = Ptr
                          then sv[i := VPtr (Some (zero (fieldElem fieldType)))]
                          else sv);
                    typ = typeTag fieldType
                in if typ = ''id'' then
                     (if length args \<noteq> 1
                      then Some (sv, data, ret @ [WrongNumberOfArguments obis])
                      else if Kind (fieldElem fieldType) \<noteq> String then None
                      else Some (store fieldType i (VString (args ! 0)) sv, data, ret))
                   else if typ = ''int'' then
                     (if length args \<noteq> 1
                      then Some (sv, data, ret @ [WrongNumberOfArguments obis])
                      else (case Atoi (args ! 0) of
                              None \<Rightarrow> Some (sv, data, ret @ [IntCouldNotParseAmount obis])
                            | Some n \<Rightarrow>
                                if Kind (fieldElem fieldType) \<noteq> Int32 then None
                                else Some (store fieldType i (VInt (word_of_int n)) sv, data, ret)))
                   else if typ = ''gasrecord'' then
                     (if length args \<noteq> 2
                      then Some (sv, data, ret @ [WrongNumberOfArguments obis])
                      else (case parseUnit ParseFloat (args ! 1) of
                              Inl err \<Rightarrow> Some (sv, data, ret @ [GasValueError obis err])
                            | Inr v \<Rightarrow>
                                if fieldElem fieldType \<noteq> structType GasRecord then None
                                else Some (store fieldType i (VStruct [VString (args ! 0), VFloat v]) sv,
                                           data, ret)))
                   else if typ = ''unit'' then
                     (if length args \<noteq> 1
                      then Some (sv, data, ret @ [WrongNumberOfArguments obis])
                      else (case parseUnit ParseFloat (args ! 0) of
                              Inl err \<Rightarrow> Some (sv, data, ret @ [UnitError obis err])
                            | Inr v \<Rightarrow>
                                if Kind (fieldElem fieldType) \<noteq> Float32 then None
                                else Some (store fieldType i (VFloat v) sv, data, ret)))
                   else Some (sv, data, ret)))))"

text \<open>The loop over the fields \<open>i\<close>, \<open>i + 1\<close>, ... of the struct type.\<close>

fun fillFields :: "parseFloat \<Rightarrow> StructField list \<Rightarrow> nat \<Rightarrow> fillState \<Rightarrow> fillState option" where
  "fillFields ParseFloat [] i state = Some state"
| "fillFields ParseFloat (fieldType # fs) i state =
     (case fillField ParseFloat fieldType i state of
        None \<Rightarrow> None
      | Some state' \<Rightarrow> fillFields ParseFloat fs (Suc i) state')"

text \<open>\<open>fillStruct\<close> returns the errors; the struct and the map are changed in place, so
  the model returns them too.\<close>

definition fillStruct :: "parseFloat \<Rightarrow> StructField list \<Rightarrow> val list \<Rightarrow> data \<Rightarrow> fillState option" where
  "fillStruct ParseFloat st sv data = fillFields ParseFloat st 0 (sv, data, [])"

section \<open>The framer, the checksum and the decoding of one telegram: \<open>readTelegram\<close>\<close>

text \<open>
  \<open>readTelegram\<close> is lines 264 to 362 of the source; its loops and the stretches between
  them are functions of their own here, each continuing with the next. The log line that
  the header loop writes for a line it skips is left out.

  The byte source is seen through \<open>m.r.ReadBytes('\n')\<close> only. A \<open>read\<close> is what one
  call returns: the bytes read, and the error if there is one. The source is the list of
  the results of the calls to come; when the list is used up the next call has not
  returned, and \<open>readTelegram\<close> has not returned either (\<open>Blocks\<close>).

  \<open>readTelegram\<close> returns a pointer to a telegram, which may be nil, and a slice of
  errors, which is nil whenever it is empty (the empty list); \<open>Returns\<close> holds both, and
  the reads that are left.
\<close>

type_synonym read = "string \<times> error option"

datatype outcome =
    Panics
  | Blocks
  | Returns "val list option" "error list" "read list"

text \<open>One of the three optional blocks: when the code that marks the block is in the map,
  a fresh struct is filled and the field of the telegram is set to point to it.\<close>

definition fillBlock ::
  "parseFloat \<Rightarrow> string \<Rightarrow> StructField list \<Rightarrow> string \<Rightarrow> fillState \<Rightarrow> fillState option" where
  "fillBlock ParseFloat code st name state =
     (case state of (ret, data, errs) \<Rightarrow>
        if data code \<noteq> None
        then (case fillStruct ParseFloat st (zeroStruct st) data of
                None \<Rightarrow> None
              | Some (e, data', errs') \<Rightarrow>
                  Some (ret[fieldIndex Telegram name := VPtr (Some (VStruct e))], data', errs @ errs'))
        else Some (ret, data, errs))"

text \<open>The end of \<open>readTelegram\<close>, from the first call of \<open>fillStruct\<close> on.\<close>

definition decodeData :: "parseFloat \<Rightarrow> val list \<Rightarrow> data \<Rightarrow> (val list \<times> error list) option" where
  "decodeData ParseFloat ret data =
     (case fillStruct ParseFloat Telegram ret data of
        None \<Rightarrow> None
      | Some state0 \<Rightarrow>
     (case fillBlock ParseFloat ''1-0:1.8.1'' ElectricityData ''Electricity'' state0 of
        None \<Rightarrow> None
      | Some state1 \<Rightarrow>
     (case fillBlock ParseFloat ''1-0:41.7.0'' MultiphaseElectricityData
             ''MultiphaseElectricity'' state1 of
        None \<Rightarrow> None
      | Some state2 \<Rightarrow>
     (case fillBlock ParseFloat ''0-1:24.2.1'' GasData ''Gas'' state2 of
        None \<Rightarrow> None
      | Some (ret, data, errs) \<Rightarrow>
          Some (ret[fieldIndex Telegram ''Other'' := VMap data], errs)))))"

text \<open>The check of the CRC, the splitting of the lines and the decoding.\<close>

definition checkAndDecode ::
  "parseFloat \<Rightarrow> val list \<Rightarrow> string \<Rightarrow> string list \<Rightarrow> string \<Rightarrow> read list \<Rightarrow> outcome" where
  "checkAndDecode ParseFloat ret checkSumBody rawLines checkSumLine rest =
     (let crc1 = crc (checkSumBody @ ''!'')
      in case ParseInt (TrimSpace (drop 1 checkSumLine)) 16 32 of
           None \<Rightarrow> Returns None [CouldNotParseChecksum] rest
         | Some crc2 \<Rightarrow>
             if uint crc1 \<noteq> crc2 then Returns None [CRCMismatch] rest
             else (case parseLines rawLines of
                     Panic \<Rightarrow> Panics
                   | Failed err \<Rightarrow> Returns None [err] rest
                   | Ok data \<Rightarrow>
                       (case decodeData ParseFloat ret data of
                          None \<Rightarrow> Panics
                        | Some (ret', errs) \<Rightarrow> Returns (Some ret') errs rest)))"

text \<open>The loop that reads the data lines up to the footer. The error of a read is
  assigned and never looked at.\<close>

fun readData ::
  "parseFloat \<Rightarrow> val list \<Rightarrow> string \<Rightarrow> string list \<Rightarrow> read list \<Rightarrow> outcome" where
  "readData ParseFloat ret checkSumBody rawLines [] = Blocks"
| "readData ParseFloat ret checkSumBody rawLines ((line, err) # rest) =
     (if HasPrefix line ''!''
      then checkAndDecode ParseFloat ret checkSumBody rawLines line rest
      else readData ParseFloat ret (checkSumBody @ line) (rawLines @ [TrimSpace line]) rest)"

text \<open>
  The header and the line after it. \<open>ReadBytes\<close> returns a slice whose capacity is its
  length, so \<open>line[:6]\<close> panics on a line of fewer than six bytes.
\<close>

definition parseHeader :: "parseFloat \<Rightarrow> string \<Rightarrow> read list \<Rightarrow> outcome" where
  "parseHeader ParseFloat line rest =
     (let checkSumBody = line
      in if length line < 5 then Returns None [HeaderLineTooShort] rest
         else if length line < 6 then Panics
         else let ret = zeroStruct Telegram;
                  ret = ret[fieldIndex Telegram ''HeaderMarker'' := VString (take 6 line)];
                  ret = ret[fieldIndex Telegram ''HeaderId'' := VString (TrimSpace (drop 6 line))]
              in (case rest of
                    [] \<Rightarrow> Blocks
                  | (line', err) # rest' \<Rightarrow>
                      (case err of
                         Some e \<Rightarrow> Returns None [e] rest'
                       | None \<Rightarrow>
                           if TrimSpace line' \<noteq> [] then Returns None [LineAfterHeaderNotBlank] rest'
                           else readData ParseFloat ret (checkSumBody @ line') [] rest')))"

text \<open>\<open>readTelegram\<close>, from the loop that waits for the header.\<close>

fun readTelegram :: "parseFloat \<Rightarrow> read list \<Rightarrow> outcome" where
  "readTelegram ParseFloat [] = Blocks"
| "readTelegram ParseFloat ((line, err) # rest) =
     (case err of
        Some e \<Rightarrow> Returns None [e] rest
      | None \<Rightarrow>
          if \<not> HasPrefix line ''/'' then readTelegram ParseFloat rest
          else parseHeader ParseFloat line rest)"

text \<open>The fields of a telegram that the claims speak of.\<close>

definition Other :: "val list \<Rightarrow> data" where
  "Other t = (case t ! fieldIndex Telegram ''Other'' of VMap m \<Rightarrow> m | _ \<Rightarrow> Map.empty)"

definition HeaderMarker :: "val list \<Rightarrow> string" where
  "HeaderMarker t = (case t ! fieldIndex Telegram ''HeaderMarker'' of VString s \<Rightarrow> s | _ \<Rightarrow> [])"

definition HeaderId :: "val list \<Rightarrow> string" where
  "HeaderId t = (case t ! fieldIndex Telegram ''HeaderId'' of VString s \<Rightarrow> s | _ \<Rightarrow> [])"

section \<open>The stream driver: the loop started by \<open>NewMeter\<close>\<close>

text \<open>
  Every call of \<open>readTelegram\<close> that returns has taken at least one read.
\<close>

lemma checkAndDecode_rest:
  "checkAndDecode ParseFloat ret body rawLines line rest = Returns t errs r \<Longrightarrow> r = rest"
  by (auto simp: checkAndDecode_def Let_def split: option.splits result.splits if_splits prod.splits)

lemma readData_rest:
  "readData ParseFloat ret body rawLines reads = Returns t errs r \<Longrightarrow> length r < length reads"
proof (induction reads arbitrary: body rawLines)
  case Nil
  then show ?case by simp
next
  case (Cons rd reads)
  obtain line err where rd: "rd = (line, err)" by (cases rd)
  show ?case
  proof (cases "HasPrefix line ''!''")
    case True
    with Cons.prems rd have "r = reads"
      by (auto dest: checkAndDecode_rest)
    then show ?thesis by simp
  next
    case False
    with Cons.prems rd
    have "readData ParseFloat ret (body @ line) (rawLines @ [TrimSpace line]) reads = Returns t errs r"
      by simp
    from Cons.IH [OF this] show ?thesis by simp
  qed
qed

lemma parseHeader_rest:
  "parseHeader ParseFloat line rest = Returns t errs r \<Longrightarrow> length r \<le> length rest"
  by (auto simp: parseHeader_def Let_def split: if_splits list.splits option.splits
           dest!: readData_rest)

lemma readTelegram_rest:
  "readTelegram ParseFloat reads = Returns t errs r \<Longrightarrow> length r < length reads"
proof (induction reads)
  case Nil
  then show ?case by simp
next
  case (Cons rd reads)
  obtain line err where rd: "rd = (line, err)" by (cases rd)
  from Cons rd show ?case
    by (auto split: option.splits if_splits dest!: parseHeader_rest)
qed

text \<open>
  The loop that \<open>NewMeter\<close> starts (lines 208 to 218). It runs while \<open>m.running\<close> holds, which is taken to hold as long as there are
  reads. A telegram is sent on the channel \<open>m.C\<close> when the errors that \<open>readTelegram\<close>
  returns are nil; otherwise they are logged and nothing is sent. The loop is followed up
  to the call of \<open>readTelegram\<close> that the reads do not let return (\<open>Reading\<close>) or that
  panics (\<open>Crashed\<close>).
\<close>

datatype event = Logged "error list" | Sent "val list option"

datatype status = Reading | Crashed

function meterLoop :: "parseFloat \<Rightarrow> read list \<Rightarrow> event list \<times> status" where
  "meterLoop ParseFloat reads =
     (case readTelegram ParseFloat reads of
        Panics \<Rightarrow> ([], Crashed)
      | Blocks \<Rightarrow> ([], Reading)
      | Returns t err2 rest \<Rightarrow>
          (let (events, final) = meterLoop ParseFloat rest
           in if err2 \<noteq> [] then (Logged err2 # events, final)
              else (Sent t # events, final)))"
  by pat_completeness auto
termination
  by (relation "measure (\<lambda>(ParseFloat, reads). length reads)") (auto dest: readTelegram_rest)

section \<open>Notions of the specification\<close>

text \<open>The code of a line is what stands before its first \<open>(\<close>; a line is well formed
  when each of its arguments ends with \<open>)\<close>.\<close>

definition obisOf :: "string \<Rightarrow> string" where
  "obisOf line = takeWhile (\<lambda>c. c \<noteq> CHR ''('') line"

definition wellFormed :: "string \<Rightarrow> bool" where
  "wellFormed line = list_all (\<lambda>arg. HasSuffix arg '')'') (tl (Split line (CHR ''('')))"

text \<open>The codes that the tagged fields of a struct type claim.\<close>

definition obisCodes :: "StructField list \<Rightarrow> string set" where
  "obisCodes st = set (List.map_filter obisTag st)"

text \<open>A tagged field whose kind is the kind that the setter for its \<open>type\<close> tag asks
  for: no store into such a field panics.\<close>

definition wellTagged :: "StructField \<Rightarrow> bool" where
  "wellTagged f =
     (obisTag f = None
      \<or> (if typeTag f = ''id'' then Kind (fieldElem f) = String
          else if typeTag f = ''int'' then Kind (fieldElem f) = Int32
          else if typeTag f = ''gasrecord'' then fieldElem f = structType GasRecord
          else if typeTag f = ''unit'' then Kind (fieldElem f) = Float32
          else True))"

text \<open>
  The validation of the arguments of a present code, as the specification words it: a
  wrong number of arguments, an integer that does not parse, a quantity that does not
  parse or has an unknown unit. \<open>argsError\<close> is the error of arguments that fail, and
  \<open>None\<close> for arguments that pass.
\<close>

definition argsError :: "parseFloat \<Rightarrow> string \<Rightarrow> string \<Rightarrow> string list \<Rightarrow> error option" where
  "argsError ParseFloat obis typ args =
     (if typ = ''id'' then
        (if length args \<noteq> 1 then Some (WrongNumberOfArguments obis) else None)
      else if typ = ''int'' then
        (if length args \<noteq> 1 then Some (WrongNumberOfArguments obis)
         else if Atoi (args ! 0) = None then Some (IntCouldNotParseAmount obis)
         else None)
      else if typ = ''gasrecord'' then
        (if length args \<noteq> 2 then Some (WrongNumberOfArguments obis)
         else (case parseUnit ParseFloat (args ! 1) of
                 Inl err \<Rightarrow> Some (GasValueError obis err)
               | Inr v \<Rightarrow> None))
      else if typ = ''unit'' then
        (if length args \<noteq> 1 then Some (WrongNumberOfArguments obis)
         else (case parseUnit ParseFloat (args ! 0) of
                 Inl err \<Rightarrow> Some (UnitError obis err)
               | Inr v \<Rightarrow> None))
      else None)"

text \<open>
  A framed telegram, as the reads that bring it: a header line of at least six bytes that
  begins with \<open>/\<close>, a blank line, the reads of the data section, none of which begins
  with \<open>!\<close>, and a footer line that begins with \<open>!\<close>. \<open>headerTelegram\<close> is the
  telegram as it is once the header is parsed, \<open>checkSumBodyOf\<close> the bytes read from the
  header up to the footer, \<open>rawLinesOf\<close> the trimmed data lines.
\<close>

definition headerTelegram :: "string \<Rightarrow> val list" where
  "headerTelegram line =
     (zeroStruct Telegram)
       [fieldIndex Telegram ''HeaderMarker'' := VString (take 6 line),
        fieldIndex Telegram ''HeaderId'' := VString (TrimSpace (drop 6 line))]"

definition telegramReads :: "string \<Rightarrow> string \<Rightarrow> read list \<Rightarrow> string \<Rightarrow> error option \<Rightarrow> read list" where
  "telegramReads header blank dataReads footer ferr =
     (header, None) # (blank, None) # dataReads @ [(footer, ferr)]"

definition framed :: "string \<Rightarrow> string \<Rightarrow> read list \<Rightarrow> string \<Rightarrow> bool" where
  "framed header blank dataReads footer =
     (HasPrefix header ''/'' \<and> 6 \<le> length header \<and> TrimSpace blank = []
      \<and> list_all (\<lambda>rd. \<not> HasPrefix (fst rd) ''!'') dataReads \<and> HasPrefix footer ''!'')"

definition checkSumBodyOf :: "string \<Rightarrow> string \<Rightarrow> read list \<Rightarrow> string" where
  "checkSumBodyOf header blank dataReads = header @ blank @ concat (map fst dataReads)"

definition rawLinesOf :: "read list \<Rightarrow> string list" where
  "rawLinesOf dataReads = map (\<lambda>rd. TrimSpace (fst rd)) dataReads"

text \<open>
  The codes claimed by the registries applied to a telegram: those of \<open>Telegram\<close>, and
  those of each block whose marking code is in the map.
\<close>

definition claimedCodes :: "data \<Rightarrow> string set" where
  "claimedCodes data =
     obisCodes Telegram
     \<union> (if data ''1-0:1.8.1'' \<noteq> None then obisCodes ElectricityData else {})
     \<union> (if data ''1-0:41.7.0'' \<noteq> None then obisCodes MultiphaseElectricityData else {})
     \<union> (if data ''0-1:24.2.1'' \<noteq> None then obisCodes GasData else {})"

text \<open>The errors of single fields, which \<open>fillStruct\<close> collects.\<close>

fun fieldLevel :: "error \<Rightarrow> bool" where
  "fieldLevel (MissingData c) = True"
| "fieldLevel (WrongNumberOfArguments c) = True"
| "fieldLevel (IntCouldNotParseAmount c) = True"
| "fieldLevel (GasValueError c e) = True"
| "fieldLevel (UnitError c e) = True"
| "fieldLevel e = False"

text \<open>The code that the message of an error of a field names.\<close>

fun errorCode :: "error \<Rightarrow> string option" where
  "errorCode (MissingData c) = Some c"
| "errorCode (WrongNumberOfArguments c) = Some c"
| "errorCode (IntCouldNotParseAmount c) = Some c"
| "errorCode (GasValueError c e) = Some c"
| "errorCode (UnitError c e) = Some c"
| "errorCode e = None"

text \<open>The telegram and the errors that a call of \<open>readTelegram\<close> returns.\<close>

fun telegramOf :: "outcome \<Rightarrow> val list option" where
  "telegramOf (Returns t errs rest) = t"
| "telegramOf other = None"

fun errorsOf :: "outcome \<Rightarrow> error list" where
  "errorsOf (Returns t errs rest) = errs"
| "errorsOf other = []"

section \<open>Inputs for the examples\<close>

text \<open>
  A reader of plain decimals (digits, a point, digits) that rounds to the nearest
  \<open>float32\<close>: what \<open>strconv.ParseFloat\<close> returns on such strings. It stands for
  \<open>ParseFloat\<close> in the examples.
\<close>

definition decimalFloat :: parseFloat where
  "decimalFloat s =
     (let ip = takeWhile (\<lambda>c. c \<noteq> CHR ''.'') s;
          fp = drop 1 (dropWhile (\<lambda>c. c \<noteq> CHR ''.'') s)
      in if ip @ fp = [] then None
         else (case parseDigits 10 0 (ip @ fp) of
                 None \<Rightarrow> None
               | Some n \<Rightarrow>
                   (case round32 (of_int n / 10 ^ length fp) of
                      Finite x \<Rightarrow> Some (Finite x)
                    | _ \<Rightarrow> None)))"

text \<open>A line as the meter sends it, read without an error, and the data lines of a
  telegram with a gas record, with the map that the line splitter makes of them.\<close>

definition sent :: "string \<Rightarrow> read" where
  "sent s = (s @ [CR, LF], None)"

definition gasReads :: "read list" where
  "gasReads =
     [sent ''1-3:0.2.8(50)'',
      sent ''0-0:1.0.0(101209113020W)'',
      sent ''0-0:96.1.1(4B38)'',
      sent ''1-0:1.7.0(1.193*kW)'',
      sent ''0-1:24.2.1(101209112500W)(1*m3)'']"

definition gasMap :: data where
  "gasMap =
     [''1-3:0.2.8'' \<mapsto> [''50''],
      ''0-0:1.0.0'' \<mapsto> [''101209113020W''],
      ''0-0:96.1.1'' \<mapsto> [''4B38''],
      ''1-0:1.7.0'' \<mapsto> [''1.193*kW''],
      ''0-1:24.2.1'' \<mapsto> [''101209112500W'', ''1*m3'']]"

text \<open>The data lines of a telegram with the three required codes and no other, and
  their map.\<close>

definition plainReads :: "read list" where
  "plainReads =
     [sent ''1-3:0.2.8(50)'',
      sent ''0-0:1.0.0(101209113020W)'',
      sent ''0-0:96.1.1(4B38)'']"

definition plainMap :: data where
  "plainMap =
     [''1-3:0.2.8'' \<mapsto> [''50''],
      ''0-0:1.0.0'' \<mapsto> [''101209113020W''],
      ''0-0:96.1.1'' \<mapsto> [''4B38'']]"

text \<open>A map with two optional codes of the electricity block whose arguments fail.\<close>

definition thresholdMap :: data where
  "thresholdMap = [''0-0:17.0.0'' \<mapsto> [''12*XYZ''], ''0-0:96.3.10'' \<mapsto> []]"

text \<open>The data reads of the plain telegram, with a read in the middle that fails and
  brings no byte, and the map that the line splitter makes of them.\<close>

definition failingReads :: "read list" where
  "failingReads =
     [sent ''1-3:0.2.8(50)'',
      sent ''0-0:1.0.0(101209113020W)'',
      ([], Some (IOError ''EOF'')),
      sent ''0-0:96.1.1(4B38)'']"

definition failingMap :: data where
  "failingMap =
     [''1-3:0.2.8'' \<mapsto> [''50''],
      ''0-0:1.0.0'' \<mapsto> [''101209113020W''],
      [] \<mapsto> [],
      ''0-0:96.1.1'' \<mapsto> [''4B38'']]"

section \<open>Lemmas on the line splitter\<close>

lemma mergeLines_append:
  "mergeLines lines (a @ b) = (case mergeLines lines a of None \<Rightarrow> None | Some ls \<Rightarrow> mergeLines ls b)"
  by (induction a arbitrary: lines) (auto simp: Let_def)

lemma mergeLines_nonempty:
  "lines \<noteq> [] \<Longrightarrow> \<exists>ls. mergeLines lines raw = Some ls \<and> ls \<noteq> []"
  by (induction raw arbitrary: lines) (auto simp: Let_def)

lemma mergeLines_last:
  "lines \<noteq> [] \<Longrightarrow> mergeLines lines [l] =
     Some (if HasPrefix l ''('' then butlast lines @ [last lines @ l] else lines @ [l])"
proof -
  assume ne: "lines \<noteq> []"
  then have "lines[length lines - 1 := lines ! (length lines - 1) @ l] = butlast lines @ [last lines @ l]"
    by (induction lines rule: rev_induct) (auto simp: nth_append)
  moreover have "nat (int (length lines) - 1) = length lines - 1" by simp
  ultimately show ?thesis using ne by (auto simp: Let_def)
qed

lemma Split_nonempty: "Split s sep \<noteq> []"
  by (induction s) (auto split: list.splits)

lemma hd_Split: "hd (Split s sep) = takeWhile (\<lambda>c. c \<noteq> sep) s"
  by (induction s) (auto split: list.splits simp: Split_nonempty)

lemma Split_cases: "\<exists>bits. Split line (CHR ''('') = obisOf line # bits"
  using Split_nonempty [of line "CHR ''(''"] hd_Split [of line "CHR ''(''"]
  by (cases "Split line (CHR ''('')") (auto simp: obisOf_def)

lemma parseArgs_Inr:
  "list_all (\<lambda>arg. HasSuffix arg '')'') bits \<Longrightarrow> \<exists>args. parseArgs line acc bits = Inr args"
  by (induction bits arbitrary: acc) auto

lemma parseArgs_Inl:
  "parseArgs line acc bits = Inl e \<Longrightarrow> e = MalformedArgument line"
  by (induction bits arbitrary: acc) (auto split: if_splits)

lemma parseEach_not_Panic: "parseEach ret lines \<noteq> Panic"
proof (induction lines arbitrary: ret)
  case Nil
  show ?case by simp
next
  case (Cons line lines)
  obtain bits where "Split line (CHR ''('') = obisOf line # bits"
    using Split_cases by blast
  then show ?case using Cons
    by (auto split: sum.splits option.splits)
qed

lemma parseEach_duplicate_fails:
  "(\<exists>line \<in> set lines. ret (obisOf line) \<noteq> None) \<or> \<not> distinct (map obisOf lines)
    \<Longrightarrow> \<exists>e. parseEach ret lines = Failed e"
proof (induction lines arbitrary: ret)
  case Nil
  then show ?case by simp
next
  case (Cons line lines)
  obtain bits where sp: "Split line (CHR ''('') = obisOf line # bits"
    using Split_cases by blast
  show ?case
  proof (cases "parseArgs line [] bits")
    case (Inl e)
    with sp show ?thesis by simp
  next
    case (Inr args)
    show ?thesis
    proof (cases "ret (obisOf line)")
      case (Some a)
      with sp Inr show ?thesis by simp
    next
      case None
      with Cons.prems
      have "(\<exists>l \<in> set lines. (ret(obisOf line \<mapsto> args)) (obisOf l) \<noteq> None)
            \<or> \<not> distinct (map obisOf lines)"
        by auto
      then obtain e where "parseEach (ret(obisOf line \<mapsto> args)) lines = Failed e"
        using Cons.IH by blast
      with sp Inr None show ?thesis by simp
    qed
  qed
qed

lemma parseEach_duplicate_code:
  "list_all wellFormed lines \<Longrightarrow>
   (\<exists>line \<in> set lines. ret (obisOf line) \<noteq> None) \<or> \<not> distinct (map obisOf lines)
    \<Longrightarrow> \<exists>c \<in> set (map obisOf lines). parseEach ret lines = Failed (MultipleOccurances c)"
proof (induction lines arbitrary: ret)
  case Nil
  then show ?case by simp
next
  case (Cons line lines)
  obtain bits where sp: "Split line (CHR ''('') = obisOf line # bits"
    using Split_cases by blast
  with Cons.prems(1) have "list_all (\<lambda>arg. HasSuffix arg '')'') bits"
    by (simp add: wellFormed_def)
  from parseArgs_Inr [OF this] obtain args where args: "parseArgs line [] bits = Inr args"
    by blast
  show ?case
  proof (cases "ret (obisOf line)")
    case (Some a)
    with sp args show ?thesis by simp
  next
    case None
    with Cons.prems
    have "(\<exists>l \<in> set lines. (ret(obisOf line \<mapsto> args)) (obisOf l) \<noteq> None)
          \<or> \<not> distinct (map obisOf lines)"
      by auto
    moreover from Cons.prems have "list_all wellFormed lines" by simp
    ultimately obtain c where c: "c \<in> set (map obisOf lines)"
      "parseEach (ret(obisOf line \<mapsto> args)) lines = Failed (MultipleOccurances c)"
      using Cons.IH by blast
    with sp args None show ?thesis by simp
  qed
qed

lemma parseEach_Failed:
  "parseEach ret lines = Failed e \<Longrightarrow>
   (\<exists>l \<in> set lines. e = MalformedArgument l) \<or> (\<exists>c. e = MultipleOccurances c)"
proof (induction lines arbitrary: ret)
  case Nil
  then show ?case by simp
next
  case (Cons l lines)
  obtain bits where sp: "Split l (CHR ''('') = obisOf l # bits"
    using Split_cases by blast
  show ?case
  proof (cases "parseArgs l [] bits")
    case (Inl e')
    with sp Cons.prems parseArgs_Inl [OF Inl] show ?thesis by simp
  next
    case (Inr args)
    show ?thesis
    proof (cases "ret (obisOf l)")
      case (Some a)
      with sp Inr Cons.prems show ?thesis by auto
    next
      case None
      with sp Inr Cons.prems
      have "parseEach (ret(obisOf l \<mapsto> args)) lines = Failed e" by simp
      from Cons.IH [OF this] show ?thesis by auto
    qed
  qed
qed

lemma parseLines_Failed:
  "parseLines rawLines = Failed e \<Longrightarrow> (\<exists>l. e = MalformedArgument l) \<or> (\<exists>c. e = MultipleOccurances c)"
  by (auto simp: parseLines_def split: option.splits dest: parseEach_Failed)

section \<open>Lemmas on the unit normalizer\<close>

lemma normalizedUnits_cases:
  "normalizedUnits u =
     (if u = ''kW'' then Some (Finite 1000)
      else if u \<in> set [''kWh'', ''W'', ''s'', ''m3'', ''A'', ''V''] then Some (Finite 1)
      else None)"
  by (simp add: normalizedUnits_def)

lemma parseUnit_cases:
  "parseUnit ParseFloat v =
     (if CHR ''*'' \<notin> set v then Inl (NotAUnit v)
      else (case ParseFloat (takeWhile (\<lambda>c. c \<noteq> CHR ''*'') v) of
              None \<Rightarrow> Inl CouldNotParseAmount
            | Some amount \<Rightarrow>
                if tl (dropWhile (\<lambda>c. c \<noteq> CHR ''*'') v) = ''kW''
                then Inr (mul32 amount (Finite 1000))
                else if tl (dropWhile (\<lambda>c. c \<noteq> CHR ''*'') v)
                          \<in> set [''kWh'', ''W'', ''s'', ''m3'', ''A'', ''V'']
                then Inr (mul32 amount (Finite 1))
                else Inl (UnknownUnit v)))"
  unfolding parseUnit_def SplitN2_def Let_def normalizedUnits_cases
  by (simp split: option.splits)

lemma float_228_584: "round32 (228584 / 1000) = Finite (14980481 / 65536)"
  by code_simp

lemma float_1_193: "round32 (1193 / 1000) = Finite (10007609 / 8388608)"
  by code_simp

lemma mul_228_584: "mul32 (Finite (14980481 / 65536)) (Finite 1) = Finite (14980481 / 65536)"
  by code_simp

lemma mul_1_193: "mul32 (Finite (10007609 / 8388608)) (Finite 1000) = Finite 1193"
  by code_simp

lemma decimalFloat_examples:
  "decimalFloat ''228.584'' = Some (round32 (228584 / 1000))"
  "decimalFloat ''1.193'' = Some (round32 (1193 / 1000))"
  "decimalFloat ''1'' = Some (Finite 1)"
  by code_simp+

lemma unit_1m3: "parseUnit decimalFloat ''1*m3'' = Inr (Finite 1)"
  by code_simp

section \<open>Lemmas on the decoder\<close>

lemma fillField_untagged:
  "obisTag f = None \<Longrightarrow> fillField pf f i s = Some s"
  by (cases s) (simp add: fillField_def)

lemma fillField_absent:
  "obisTag f = Some obis \<Longrightarrow> data obis = None \<Longrightarrow>
   fillField pf f i (sv, data, ret) =
     Some (sv, data, if Kind (Type f) \<noteq> Ptr then ret @ [MissingData obis] else ret)"
  by (simp add: fillField_def)

lemma fillField_invalid:
  "obisTag f = Some obis \<Longrightarrow> data obis = Some args \<Longrightarrow>
   argsError pf obis (typeTag f) args = Some e \<Longrightarrow>
   fillField pf f i (sv, data, ret) =
     Some (if Kind (Type f) = Ptr then sv[i := VPtr (Some (zero (fieldElem f)))] else sv,
           data(obis := None), ret @ [e])"
  by (auto simp: fillField_def argsError_def Let_def split: if_splits sum.splits option.splits)

lemma fillField_data:
  "fillField pf f i (sv, data, ret) = Some (sv', data', ret') \<Longrightarrow>
   data' = (case obisTag f of None \<Rightarrow> data | Some obis \<Rightarrow> data(obis := None))"
  by (auto simp: fillField_def Let_def split: if_splits sum.splits option.splits)

lemma fillField_sv:
  "fillField pf f i (sv, data, ret) = Some (sv', data', ret') \<Longrightarrow>
   length sv' = length sv \<and> (\<forall>j. j \<noteq> i \<longrightarrow> sv' ! j = sv ! j)"
  by (auto simp: fillField_def Let_def store_def split: if_splits sum.splits option.splits)

lemma fillField_wellTagged:
  "wellTagged f \<Longrightarrow> fillField pf f i s \<noteq> None"
  by (cases s) (auto simp: fillField_def wellTagged_def Let_def split: if_splits sum.splits option.splits)

lemma fillField_errors:
  "fillField pf f i (sv, data, ret) = Some (sv', data', ret') \<Longrightarrow> \<exists>es. ret' = ret @ es"
  by (auto simp: fillField_def Let_def split: if_splits sum.splits option.splits)

lemma fillField_fieldLevel:
  "fillField pf f i (sv, data, ret) = Some (sv', data', ret') \<Longrightarrow>
   \<exists>es. ret' = ret @ es \<and> list_all fieldLevel es \<and> list_all (\<lambda>e. errorCode e = obisTag f) es"
  by (auto simp: fillField_def Let_def split: if_splits sum.splits option.splits)

lemma fillFields_append:
  "fillFields pf (a @ b) k s =
     (case fillFields pf a k s of None \<Rightarrow> None | Some s' \<Rightarrow> fillFields pf b (k + length a) s')"
  by (induction a arbitrary: k s) (auto split: option.splits)

lemma fillFields_wellTagged:
  "list_all wellTagged fs \<Longrightarrow> fillFields pf fs k s \<noteq> None"
proof (induction fs arbitrary: k s)
  case Nil
  show ?case by simp
next
  case (Cons f fs)
  then have "fillField pf f k s \<noteq> None" by (simp add: fillField_wellTagged)
  then obtain s' where "fillField pf f k s = Some s'" by auto
  with Cons show ?case by simp
qed

lemma map_filter_Cons:
  "List.map_filter g (x # xs) = (case g x of None \<Rightarrow> List.map_filter g xs | Some y \<Rightarrow> y # List.map_filter g xs)"
  by (simp add: List.map_filter_def split: option.splits)

lemma obisCodes_Cons:
  "obisCodes (f # fs) = (case obisTag f of None \<Rightarrow> {} | Some c \<Rightarrow> {c}) \<union> obisCodes fs"
  by (auto simp: obisCodes_def map_filter_Cons split: option.splits)

lemma obisCodes_Nil: "obisCodes [] = {}"
  by (simp add: obisCodes_def List.map_filter_def)

lemma obisCodes_iff: "c \<in> obisCodes fs \<longleftrightarrow> (\<exists>f \<in> set fs. obisTag f = Some c)"
  by (induction fs) (auto simp: obisCodes_Nil obisCodes_Cons split: option.splits)

lemma fillFields_data:
  "fillFields pf fs k (sv, data, ret) = Some (sv', data', ret') \<Longrightarrow>
   data' = data |` (- obisCodes fs)"
proof (induction fs arbitrary: k sv data ret)
  case Nil
  then show ?case by (simp add: obisCodes_Nil)
next
  case (Cons f fs)
  from Cons.prems obtain sv1 data1 ret1 where
    step: "fillField pf f k (sv, data, ret) = Some (sv1, data1, ret1)"
    and rest: "fillFields pf fs (Suc k) (sv1, data1, ret1) = Some (sv', data', ret')"
    by (auto split: option.splits)
  from Cons.IH [OF rest] have d': "data' = data1 |` (- obisCodes fs)" .
  from fillField_data [OF step]
  have d1: "data1 = (case obisTag f of None \<Rightarrow> data | Some obis \<Rightarrow> data(obis := None))" .
  show ?case
    unfolding d' d1 obisCodes_Cons
    by (auto simp: restrict_map_def fun_eq_iff split: option.splits)
qed

lemma fillFields_sv:
  "fillFields pf fs k (sv, data, ret) = Some (sv', data', ret') \<Longrightarrow>
   length sv' = length sv \<and> (\<forall>j. j < k \<or> k + length fs \<le> j \<longrightarrow> sv' ! j = sv ! j)"
proof (induction fs arbitrary: k sv data ret)
  case Nil
  then show ?case by simp
next
  case (Cons f fs)
  from Cons.prems obtain sv1 data1 ret1 where
    step: "fillField pf f k (sv, data, ret) = Some (sv1, data1, ret1)"
    and rest: "fillFields pf fs (Suc k) (sv1, data1, ret1) = Some (sv', data', ret')"
    by (auto split: option.splits)
  from Cons.IH [OF rest] fillField_sv [OF step] show ?case by auto
qed

lemma fillFields_errors:
  "fillFields pf fs k (sv, data, ret) = Some (sv', data', ret') \<Longrightarrow> \<exists>es. ret' = ret @ es"
proof (induction fs arbitrary: k sv data ret)
  case Nil
  then show ?case by simp
next
  case (Cons f fs)
  from Cons.prems obtain sv1 data1 ret1 where
    step: "fillField pf f k (sv, data, ret) = Some (sv1, data1, ret1)"
    and rest: "fillFields pf fs (Suc k) (sv1, data1, ret1) = Some (sv', data', ret')"
    by (auto split: option.splits)
  from Cons.IH [OF rest] fillField_errors [OF step] show ?case by auto
qed

lemma fillFields_fieldLevel:
  "fillFields pf fs k (sv, data, ret) = Some (sv', data', ret') \<Longrightarrow>
   \<exists>es. ret' = ret @ es \<and> list_all fieldLevel es
        \<and> list_all (\<lambda>e. \<exists>f \<in> set fs. errorCode e = obisTag f) es"
proof (induction fs arbitrary: k sv data ret)
  case Nil
  then show ?case by simp
next
  case (Cons f fs)
  from Cons.prems obtain sv1 data1 ret1 where
    step: "fillField pf f k (sv, data, ret) = Some (sv1, data1, ret1)"
    and rest: "fillFields pf fs (Suc k) (sv1, data1, ret1) = Some (sv', data', ret')"
    by (auto split: option.splits)
  from fillField_fieldLevel [OF step] obtain es1 where
    e1: "ret1 = ret @ es1" "list_all fieldLevel es1" "list_all (\<lambda>e. errorCode e = obisTag f) es1"
    by blast
  from Cons.IH [OF rest] obtain es2 where
    e2: "ret' = ret1 @ es2" "list_all fieldLevel es2"
        "list_all (\<lambda>e. \<exists>f \<in> set fs. errorCode e = obisTag f) es2"
    by blast
  have "ret' = ret @ (es1 @ es2)" using e1 e2 by simp
  moreover have "list_all fieldLevel (es1 @ es2)" using e1 e2 by simp
  moreover have "list_all (\<lambda>e. \<exists>g \<in> set (f # fs). errorCode e = obisTag g) (es1 @ es2)"
    using e1(3) e2(3) by (auto simp: list_all_iff)
  ultimately show ?case by blast
qed

lemma fillFields_codes_of_errors:
  assumes "fillFields pf fs k (sv, data, ret) = Some (sv', data', ret')"
    and "obis \<notin> obisCodes fs"
    and "list_all (\<lambda>e. errorCode e \<noteq> Some obis) ret"
  shows "list_all (\<lambda>e. errorCode e \<noteq> Some obis) ret'"
proof -
  from fillFields_fieldLevel [OF assms(1)] obtain es where
    es: "ret' = ret @ es" "list_all (\<lambda>e. \<exists>f \<in> set fs. errorCode e = obisTag f) es"
    by blast
  have "list_all (\<lambda>e. errorCode e \<noteq> Some obis) es"
    using es(2) assms(2) by (auto simp: list_all_iff obisCodes_iff)
  with es(1) assms(3) show ?thesis by simp
qed

lemma list_all_take: "list_all P xs \<Longrightarrow> list_all P (take n xs)"
  by (auto simp: list_all_iff dest: in_set_takeD)

lemma list_all_drop: "list_all P xs \<Longrightarrow> list_all P (drop n xs)"
  by (auto simp: list_all_iff dest: in_set_dropD)

lemma fillFields_split:
  assumes "i < length st"
  shows "fillFields pf st 0 s =
           (case fillFields pf (take i st) 0 s of
              None \<Rightarrow> None
            | Some s1 \<Rightarrow>
                (case fillField pf (st ! i) i s1 of
                   None \<Rightarrow> None
                 | Some s2 \<Rightarrow> fillFields pf (drop (Suc i) st) (Suc i) s2))"
proof -
  have "st = take i st @ st ! i # drop (Suc i) st"
    using assms by (simp add: id_take_nth_drop)
  then have "fillFields pf st 0 s = fillFields pf (take i st @ st ! i # drop (Suc i) st) 0 s"
    by simp
  also have "\<dots> = (case fillFields pf (take i st) 0 s of
              None \<Rightarrow> None
            | Some s1 \<Rightarrow> fillFields pf (st ! i # drop (Suc i) st) (0 + length (take i st)) s1)"
    by (rule fillFields_append)
  also have "\<dots> = (case fillFields pf (take i st) 0 s of
              None \<Rightarrow> None
            | Some s1 \<Rightarrow>
                (case fillField pf (st ! i) i s1 of
                   None \<Rightarrow> None
                 | Some s2 \<Rightarrow> fillFields pf (drop (Suc i) st) (Suc i) s2))"
    using assms by (simp add: min_def split: option.splits)
  finally show ?thesis .
qed

lemma fillFields_skip2:
  "obisTag f0 = None \<Longrightarrow> obisTag f1 = None \<Longrightarrow>
   fillFields pf (f0 # f1 # fs) 0 s = fillFields pf fs (Suc (Suc 0)) s"
  by (simp add: fillField_untagged)

lemma zero_ptr_differs: "VPtr (Some v) \<noteq> zero (TPtr E)"
  by simp

lemma wellTagged_Telegram: "list_all wellTagged Telegram"
  by (simp add: Telegram_def wellTagged_def tagged_def untagged_def fieldElem_def)

lemma wellTagged_ElectricityData: "list_all wellTagged ElectricityData"
  by (simp add: ElectricityData_def wellTagged_def tagged_def untagged_def fieldElem_def)

lemma wellTagged_MultiphaseElectricityData: "list_all wellTagged MultiphaseElectricityData"
  by (simp add: MultiphaseElectricityData_def wellTagged_def tagged_def untagged_def fieldElem_def)

lemma wellTagged_GasData: "list_all wellTagged GasData"
  by (simp add: GasData_def wellTagged_def tagged_def untagged_def fieldElem_def structType_def)

lemma fillStruct_total:
  "list_all wellTagged st \<Longrightarrow> \<exists>sv' data' errs. fillStruct pf st sv data = Some (sv', data', errs)"
  using fillFields_wellTagged [of st pf 0 "(sv, data, [])"]
  by (auto simp: fillStruct_def)

lemma fillStruct_data:
  "fillStruct pf st sv data = Some (sv', data', errs) \<Longrightarrow> data' = data |` (- obisCodes st)"
  by (auto simp: fillStruct_def dest: fillFields_data)

lemma fillStruct_length:
  "fillStruct pf st sv data = Some (sv', data', errs) \<Longrightarrow> length sv' = length sv"
  by (auto simp: fillStruct_def dest: fillFields_sv)

lemma fillStruct_fieldLevel:
  "fillStruct pf st sv data = Some (sv', data', errs) \<Longrightarrow> list_all fieldLevel errs"
  by (auto simp: fillStruct_def dest: fillFields_fieldLevel)

lemma fillBlock_total:
  "list_all wellTagged st \<Longrightarrow> \<exists>s'. fillBlock pf code st name s = Some s'"
proof -
  assume wt: "list_all wellTagged st"
  obtain ret data errs where s: "s = (ret, data, errs)" by (cases s)
  from fillStruct_total [OF wt, of pf "zeroStruct st" data]
  show ?thesis by (auto simp: fillBlock_def s)
qed

lemma fillBlock_data:
  "fillBlock pf code st name (ret, data, errs) = Some (ret', data', errs') \<Longrightarrow>
   data' = data |` (- (if data code \<noteq> None then obisCodes st else {}))
   \<and> length ret' = length ret"
  by (auto simp: fillBlock_def split: if_splits option.splits dest: fillStruct_data)

lemma fillBlock_fieldLevel:
  "fillBlock pf code st name (ret, data, errs) = Some (ret', data', errs') \<Longrightarrow>
   list_all fieldLevel errs \<Longrightarrow> list_all fieldLevel errs'"
  by (auto simp: fillBlock_def split: if_splits option.splits dest: fillStruct_fieldLevel)

section \<open>Lemmas on the decoding of a telegram\<close>

lemma obisCodes_Telegram:
  "obisCodes Telegram = {''1-3:0.2.8'', ''0-0:1.0.0'', ''0-0:96.1.1'', ''0-0:96.13.1'', ''0-0:96.13.0''}"
  by (simp add: obisCodes_def Telegram_def tagged_def untagged_def map_filter_Cons List.map_filter_def)

lemma marker_not_in_Telegram:
  "''1-0:1.8.1'' \<notin> obisCodes Telegram" "''1-0:41.7.0'' \<notin> obisCodes Telegram"
  "''0-1:24.2.1'' \<notin> obisCodes Telegram"
  by (simp_all add: obisCodes_Telegram)

lemma marker_not_in_ElectricityData:
  "''1-0:41.7.0'' \<notin> obisCodes ElectricityData" "''0-1:24.2.1'' \<notin> obisCodes ElectricityData"
  by (simp_all add: obisCodes_def ElectricityData_def tagged_def map_filter_Cons List.map_filter_def)

lemma marker_not_in_MultiphaseElectricityData:
  "''0-1:24.2.1'' \<notin> obisCodes MultiphaseElectricityData"
  by (simp_all add: obisCodes_def MultiphaseElectricityData_def tagged_def map_filter_Cons List.map_filter_def)

lemma fieldIndex_Other: "fieldIndex Telegram ''Other'' = 10"
  by (simp add: Telegram_def tagged_def untagged_def)

lemma fieldIndex_blocks:
  "fieldIndex Telegram ''Electricity'' = 2"
  "fieldIndex Telegram ''MultiphaseElectricity'' = 3"
  "fieldIndex Telegram ''Gas'' = 4"
  "fieldIndex Telegram ''HeaderMarker'' = 0"
  "fieldIndex Telegram ''HeaderId'' = Suc 0"
  by (simp_all add: Telegram_def tagged_def untagged_def)

lemma length_Telegram: "length Telegram = 11"
  by (simp add: Telegram_def)

lemma Telegram_split:
  "\<exists>fs. Telegram = untagged ''HeaderMarker'' TString # untagged ''HeaderId'' TString # fs"
  by (simp add: Telegram_def)

lemma length_headerTelegram: "length (headerTelegram header) = length Telegram"
  by (simp add: headerTelegram_def zeroStruct_def)

lemma headerTelegram_fields:
  "headerTelegram line ! 0 = VString (take 6 line)"
  "headerTelegram line ! Suc 0 = VString (TrimSpace (drop 6 line))"
  unfolding headerTelegram_def fieldIndex_blocks by (simp_all add: zeroStruct_def Telegram_def)

lemma decodeData_total:
  "\<exists>t errs. decodeData pf ret data = Some (t, errs)"
proof -
  obtain s0 where s0: "fillStruct pf Telegram ret data = Some s0"
    using fillStruct_total [OF wellTagged_Telegram, of pf ret data] by auto
  obtain s1 where s1: "fillBlock pf ''1-0:1.8.1'' ElectricityData ''Electricity'' s0 = Some s1"
    using fillBlock_total [OF wellTagged_ElectricityData] by blast
  obtain s2 where s2: "fillBlock pf ''1-0:41.7.0'' MultiphaseElectricityData ''MultiphaseElectricity'' s1 = Some s2"
    using fillBlock_total [OF wellTagged_MultiphaseElectricityData] by blast
  obtain s3 where s3: "fillBlock pf ''0-1:24.2.1'' GasData ''Gas'' s2 = Some s3"
    using fillBlock_total [OF wellTagged_GasData] by blast
  obtain r d e where "s3 = (r, d, e)" by (cases s3)
  with s0 s1 s2 s3 show ?thesis by (simp add: decodeData_def)
qed

lemma decodeData_steps:
  assumes "decodeData pf ret data = Some (t, errs)"
  obtains r0 d0 e0 r1 d1 e1 r2 d2 e2 r3 d3 where
    "fillStruct pf Telegram ret data = Some (r0, d0, e0)"
    "fillBlock pf ''1-0:1.8.1'' ElectricityData ''Electricity'' (r0, d0, e0) = Some (r1, d1, e1)"
    "fillBlock pf ''1-0:41.7.0'' MultiphaseElectricityData ''MultiphaseElectricity'' (r1, d1, e1) = Some (r2, d2, e2)"
    "fillBlock pf ''0-1:24.2.1'' GasData ''Gas'' (r2, d2, e2) = Some (r3, d3, errs)"
    "t = r3[fieldIndex Telegram ''Other'' := VMap d3]"
proof -
  obtain s0 where s0: "fillStruct pf Telegram ret data = Some s0"
    using assms by (cases "fillStruct pf Telegram ret data") (simp_all add: decodeData_def)
  obtain s1 where s1: "fillBlock pf ''1-0:1.8.1'' ElectricityData ''Electricity'' s0 = Some s1"
    using assms s0
    by (cases "fillBlock pf ''1-0:1.8.1'' ElectricityData ''Electricity'' s0")
       (simp_all add: decodeData_def)
  obtain s2 where s2: "fillBlock pf ''1-0:41.7.0'' MultiphaseElectricityData ''MultiphaseElectricity'' s1 = Some s2"
    using assms s0 s1
    by (cases "fillBlock pf ''1-0:41.7.0'' MultiphaseElectricityData ''MultiphaseElectricity'' s1")
       (simp_all add: decodeData_def)
  obtain s3 where s3: "fillBlock pf ''0-1:24.2.1'' GasData ''Gas'' s2 = Some s3"
    using assms s0 s1 s2
    by (cases "fillBlock pf ''0-1:24.2.1'' GasData ''Gas'' s2") (simp_all add: decodeData_def)
  obtain r0 d0 e0 where p0: "s0 = (r0, d0, e0)" by (cases s0)
  obtain r1 d1 e1 where p1: "s1 = (r1, d1, e1)" by (cases s1)
  obtain r2 d2 e2 where p2: "s2 = (r2, d2, e2)" by (cases s2)
  obtain r3 d3 e3 where p3: "s3 = (r3, d3, e3)" by (cases s3)
  from assms s0 s1 s2 s3 p3 have "t = r3[fieldIndex Telegram ''Other'' := VMap d3]" "errs = e3"
    by (simp_all add: decodeData_def)
  with that s0 s1 s2 s3 p0 p1 p2 p3 show thesis by blast
qed

lemma restrict_twice: "(m |` (- A)) |` (- B) = m |` (- (A \<union> B))"
  by (auto simp: restrict_map_def fun_eq_iff)

lemma decodeData_Other:
  assumes len: "length ret = length Telegram"
    and dec: "decodeData pf ret data = Some (t, errs)"
  shows "Other t = data |` (- claimedCodes data)"
proof -
  from dec obtain r0 d0 e0 r1 d1 e1 r2 d2 e2 r3 d3 where
    s0: "fillStruct pf Telegram ret data = Some (r0, d0, e0)"
    and s1: "fillBlock pf ''1-0:1.8.1'' ElectricityData ''Electricity'' (r0, d0, e0) = Some (r1, d1, e1)"
    and s2: "fillBlock pf ''1-0:41.7.0'' MultiphaseElectricityData ''MultiphaseElectricity'' (r1, d1, e1) = Some (r2, d2, e2)"
    and s3: "fillBlock pf ''0-1:24.2.1'' GasData ''Gas'' (r2, d2, e2) = Some (r3, d3, errs)"
    and t: "t = r3[fieldIndex Telegram ''Other'' := VMap d3]"
    by (rule decodeData_steps)
  define A where "A = obisCodes Telegram"
  define B where "B = (if data ''1-0:1.8.1'' \<noteq> None then obisCodes ElectricityData else {})"
  define C where "C = (if data ''1-0:41.7.0'' \<noteq> None then obisCodes MultiphaseElectricityData else {})"
  define D where "D = (if data ''0-1:24.2.1'' \<noteq> None then obisCodes GasData else {})"
  have nA: "''1-0:1.8.1'' \<notin> A" "''1-0:41.7.0'' \<notin> A" "''0-1:24.2.1'' \<notin> A"
    using marker_not_in_Telegram by (simp_all add: A_def)
  have nB: "''1-0:41.7.0'' \<notin> B" "''0-1:24.2.1'' \<notin> B"
    using marker_not_in_ElectricityData by (simp_all add: B_def)
  have nC: "''0-1:24.2.1'' \<notin> C"
    using marker_not_in_MultiphaseElectricityData by (simp_all add: C_def)
  have d0: "d0 = data |` (- A)" unfolding A_def by (rule fillStruct_data [OF s0])
  have l0: "length r0 = length ret" by (rule fillStruct_length [OF s0])
  have p0: "d0 ''1-0:1.8.1'' = data ''1-0:1.8.1''"
    using nA by (simp add: d0 restrict_map_def)
  from fillBlock_data [OF s1] have d1: "d1 = d0 |` (- B)" and l1: "length r1 = length r0"
    unfolding p0 B_def by simp_all
  have d1': "d1 = data |` (- (A \<union> B))" by (simp add: d1 d0 restrict_twice)
  have p1: "d1 ''1-0:41.7.0'' = data ''1-0:41.7.0''"
    using nA nB by (simp add: d1' restrict_map_def)
  from fillBlock_data [OF s2] have d2: "d2 = d1 |` (- C)" and l2: "length r2 = length r1"
    unfolding p1 C_def by simp_all
  have d2': "d2 = data |` (- (A \<union> B \<union> C))" by (simp add: d2 d1' restrict_twice)
  have p2: "d2 ''0-1:24.2.1'' = data ''0-1:24.2.1''"
    using nA nB nC by (simp add: d2' restrict_map_def)
  from fillBlock_data [OF s3] have d3: "d3 = d2 |` (- D)" and l3: "length r3 = length r2"
    unfolding p2 D_def by simp_all
  have "d3 = data |` (- (A \<union> B \<union> C \<union> D))" by (simp add: d3 d2' restrict_twice)
  then have "d3 = data |` (- claimedCodes data)"
    by (simp add: claimedCodes_def A_def B_def C_def D_def)
  moreover have "Other t = d3"
    using len l0 l1 l2 l3 by (simp add: t Other_def fieldIndex_Other length_Telegram)
  ultimately show ?thesis by simp
qed

lemma decodeData_fieldLevel:
  assumes "decodeData pf ret data = Some (t, errs)"
  shows "list_all fieldLevel errs"
proof -
  from assms obtain r0 d0 e0 r1 d1 e1 r2 d2 e2 r3 d3 where
    s0: "fillStruct pf Telegram ret data = Some (r0, d0, e0)"
    and s1: "fillBlock pf ''1-0:1.8.1'' ElectricityData ''Electricity'' (r0, d0, e0) = Some (r1, d1, e1)"
    and s2: "fillBlock pf ''1-0:41.7.0'' MultiphaseElectricityData ''MultiphaseElectricity'' (r1, d1, e1) = Some (r2, d2, e2)"
    and s3: "fillBlock pf ''0-1:24.2.1'' GasData ''Gas'' (r2, d2, e2) = Some (r3, d3, errs)"
    by (rule decodeData_steps)
  from fillStruct_fieldLevel [OF s0] have "list_all fieldLevel e0" .
  from fillBlock_fieldLevel [OF s1 this] have "list_all fieldLevel e1" .
  from fillBlock_fieldLevel [OF s2 this] have "list_all fieldLevel e2" .
  from fillBlock_fieldLevel [OF s3 this] show ?thesis .
qed

lemma fillStruct_Telegram_header:
  assumes "fillStruct pf Telegram ret data = Some (r0, d0, e0)"
  shows "r0 ! 0 = ret ! 0 \<and> r0 ! Suc 0 = ret ! Suc 0"
proof -
  from Telegram_split obtain fs where
    T: "Telegram = untagged ''HeaderMarker'' TString # untagged ''HeaderId'' TString # fs"
    by blast
  have "fillStruct pf Telegram ret data = fillFields pf fs (Suc (Suc 0)) (ret, data, [])"
    unfolding fillStruct_def T by (rule fillFields_skip2) (simp_all add: untagged_def)
  with assms have "fillFields pf fs (Suc (Suc 0)) (ret, data, []) = Some (r0, d0, e0)"
    by simp
  from fillFields_sv [OF this] show ?thesis by simp
qed

lemma fillBlock_header:
  assumes "fillBlock pf code st name (ret, data, errs) = Some (ret', data', errs')"
    and "2 \<le> fieldIndex Telegram name"
  shows "ret' ! 0 = ret ! 0 \<and> ret' ! Suc 0 = ret ! Suc 0"
  using assms by (auto simp: fillBlock_def split: if_splits option.splits)

lemma decodeData_header:
  assumes "decodeData pf ret data = Some (t, errs)"
  shows "t ! 0 = ret ! 0 \<and> t ! Suc 0 = ret ! Suc 0"
proof -
  from assms obtain r0 d0 e0 r1 d1 e1 r2 d2 e2 r3 d3 where
    s0: "fillStruct pf Telegram ret data = Some (r0, d0, e0)"
    and s1: "fillBlock pf ''1-0:1.8.1'' ElectricityData ''Electricity'' (r0, d0, e0) = Some (r1, d1, e1)"
    and s2: "fillBlock pf ''1-0:41.7.0'' MultiphaseElectricityData ''MultiphaseElectricity'' (r1, d1, e1) = Some (r2, d2, e2)"
    and s3: "fillBlock pf ''0-1:24.2.1'' GasData ''Gas'' (r2, d2, e2) = Some (r3, d3, errs)"
    and t: "t = r3[fieldIndex Telegram ''Other'' := VMap d3]"
    by (rule decodeData_steps)
  from fillStruct_Telegram_header [OF s0]
    fillBlock_header [OF s1] fillBlock_header [OF s2] fillBlock_header [OF s3]
  have "r3 ! 0 = ret ! 0 \<and> r3 ! Suc 0 = ret ! Suc 0"
    by (simp add: fieldIndex_blocks)
  then show ?thesis by (simp add: t fieldIndex_Other)
qed

section \<open>Lemmas on the framer and the driver\<close>

lemma readData_footer:
  "list_all (\<lambda>rd. \<not> HasPrefix (fst rd) ''!'') ds \<Longrightarrow> HasPrefix footer ''!'' \<Longrightarrow>
   readData pf ret body raw (ds @ (footer, ferr) # rest) =
     checkAndDecode pf ret (body @ concat (map fst ds)) (raw @ rawLinesOf ds) footer rest"
proof (induction ds arbitrary: body raw)
  case Nil
  then show ?case by (simp add: rawLinesOf_def)
next
  case (Cons d ds)
  obtain line err where d: "d = (line, err)" by (cases d)
  from Cons.prems d have np: "\<not> HasPrefix line ''!''" and rest: "list_all (\<lambda>rd. \<not> HasPrefix (fst rd) ''!'') ds"
    by simp_all
  from Cons.IH [OF rest Cons.prems(2), of "body @ line" "raw @ [TrimSpace line]"] np d
  show ?case by (simp add: rawLinesOf_def)
qed

lemma readTelegram_framed:
  assumes "framed header blank ds footer"
  shows "readTelegram pf (telegramReads header blank ds footer ferr @ rest) =
           checkAndDecode pf (headerTelegram header) (checkSumBodyOf header blank ds)
             (rawLinesOf ds) footer rest"
proof -
  from assms have h: "HasPrefix header ''/''" "6 \<le> length header" "TrimSpace blank = []"
    "list_all (\<lambda>rd. \<not> HasPrefix (fst rd) ''!'') ds" "HasPrefix footer ''!''"
    by (simp_all add: framed_def)
  have "readTelegram pf (telegramReads header blank ds footer ferr @ rest) =
        parseHeader pf header ((blank, None) # ds @ (footer, ferr) # rest)"
    using h(1) by (simp add: telegramReads_def)
  also have "\<dots> = readData pf (headerTelegram header) (header @ blank) [] (ds @ (footer, ferr) # rest)"
    using h(2,3) by (simp add: parseHeader_def Let_def headerTelegram_def)
  also have "\<dots> = checkAndDecode pf (headerTelegram header) ((header @ blank) @ concat (map fst ds))
       ([] @ rawLinesOf ds) footer rest"
    by (rule readData_footer [OF h(4,5)])
  finally show ?thesis by (simp add: checkSumBodyOf_def)
qed

lemma checkAndDecode_valid:
  assumes "ParseInt (TrimSpace (drop 1 footer)) 16 32 = Some (uint (crc (body @ ''!'')))"
    and "parseLines rawLines = Ok data"
    and "decodeData pf ret data = Some (t, errs)"
  shows "checkAndDecode pf ret body rawLines footer rest = Returns (Some t) errs rest"
  using assms by (simp add: checkAndDecode_def)

lemma checkAndDecode_decoded:
  "checkAndDecode pf ret body rawLines footer rest = Returns (Some t) errs r \<Longrightarrow>
   \<exists>data. decodeData pf ret data = Some (t, errs)"
  by (auto simp: checkAndDecode_def Let_def split: option.splits if_splits result.splits)

lemma readData_decoded:
  "readData pf ret body rawLines reads = Returns (Some t) errs r \<Longrightarrow>
   \<exists>data. decodeData pf ret data = Some (t, errs)"
proof (induction reads arbitrary: body rawLines)
  case Nil
  then show ?case by simp
next
  case (Cons rd reads)
  obtain line err where rd: "rd = (line, err)" by (cases rd)
  show ?case
  proof (cases "HasPrefix line ''!''")
    case True
    with Cons.prems rd show ?thesis by (auto dest: checkAndDecode_decoded)
  next
    case False
    with Cons.prems rd
    have "readData pf ret (body @ line) (rawLines @ [TrimSpace line]) reads = Returns (Some t) errs r"
      by simp
    from Cons.IH [OF this] show ?thesis .
  qed
qed

lemma parseHeader_decoded:
  assumes "parseHeader pf line rest = Returns (Some t) errs r"
  shows "6 \<le> length line \<and> (\<exists>data. decodeData pf (headerTelegram line) data = Some (t, errs))"
proof -
  from assms have len: "6 \<le> length line"
    by (auto simp: parseHeader_def Let_def split: if_splits)
  from assms len obtain line' rest' where
    "readData pf (headerTelegram line) (line @ line') [] rest' = Returns (Some t) errs r"
    by (auto simp: parseHeader_def Let_def headerTelegram_def
             split: if_splits list.splits option.splits)
  from readData_decoded [OF this] len show ?thesis by blast
qed

lemma meterLoop_Nil: "meterLoop pf [] = ([], Reading)"
  by (subst meterLoop.simps) simp

lemma meterLoop_Returns:
  "readTelegram pf reads = Returns t errs rest \<Longrightarrow>
   meterLoop pf reads =
     ((if errs \<noteq> [] then Logged errs else Sent t) # fst (meterLoop pf rest),
      snd (meterLoop pf rest))"
  by (subst meterLoop.simps) (simp add: case_prod_beta)

section \<open>Evaluating the checksum\<close>

lemma makeTable_unfold:
  "makeTable poly i =
     tableStep poly (tableStep poly (tableStep poly (tableStep poly
       (tableStep poly (tableStep poly (tableStep poly (tableStep poly (ucast i))))))))"
  by (simp add: makeTable_def eval_nat_numeral)

lemma all_ones: "(0xffff :: 16 word) = - 1"
  by simp

text \<open>The two inversions of \<open>Update\<close> and the two of \<open>crc\<close> cancel: \<open>crc\<close> is the
  CRC of the table started at 0.\<close>

lemma crc_alt: "crc data = update 0 IBMTable data"
  unfolding crc_def crc16_Update_def all_ones by simp

lemmas crc_eval = crc_alt IBMTable_def makeTable_unfold tableStep_def IBM_def CR_def LF_def

section \<open>Facts on the inputs of the examples\<close>

lemma gas_framed: "framed (''/abcde'' @ [CR, LF]) [CR, LF] gasReads (''!6010'' @ [CR, LF])"
  by code_simp

lemma gas_rawLines:
  "rawLinesOf gasReads =
     [''1-3:0.2.8(50)'', ''0-0:1.0.0(101209113020W)'', ''0-0:96.1.1(4B38)'',
      ''1-0:1.7.0(1.193*kW)'', ''0-1:24.2.1(101209112500W)(1*m3)'']"
  by code_simp

lemma gas_parseLines: "parseLines (rawLinesOf gasReads) = Ok gasMap"
  unfolding gas_rawLines by (simp add: parseLines_def HasPrefix_def HasSuffix_def gasMap_def)

lemma gas_footer: "ParseInt (TrimSpace (drop 1 (''!6010'' @ [CR, LF]))) 16 32 = Some 24592"
  by code_simp

lemma gas_crc: "uint (crc (checkSumBodyOf (''/abcde'' @ [CR, LF]) [CR, LF] gasReads @ ''!'')) = 24592"
  by (simp add: checkSumBodyOf_def gasReads_def sent_def crc_eval)

lemma gas_checksum:
  "ParseInt (TrimSpace (drop 1 (''!6010'' @ [CR, LF]))) 16 32
     = Some (uint (crc (checkSumBodyOf (''/abcde'' @ [CR, LF]) [CR, LF] gasReads @ ''!'')))"
  by (simp only: gas_footer gas_crc)

lemma gas_decode:
  "\<exists>t. decodeData decimalFloat (headerTelegram (''/abcde'' @ [CR, LF])) gasMap
        = Some (t, [MissingData ''0-1:24.1.0'', MissingData ''0-1:96.1.0''])"
  by (simp add: decodeData_def fillBlock_def fillStruct_def fillField_def Telegram_def GasData_def
       GasRecord_def structType_def tagged_def untagged_def gasMap_def Let_def zeroStruct_def
       store_def fieldElem_def headerTelegram_def unit_1m3)

lemma gas_claimed:
  "gasMap |` (- claimedCodes gasMap) = [''1-0:1.7.0'' \<mapsto> [''1.193*kW'']]"
  apply (rule ext)
  apply (simp add: claimedCodes_def gasMap_def restrict_map_def obisCodes_Telegram)
  apply (simp add: obisCodes_def GasData_def tagged_def map_filter_Cons List.map_filter_def)
  done

lemma gasMap_absent: "gasMap ''0-1:96.1.0'' = None" "gasMap ''0-1:24.4.0'' = None"
  by (simp_all add: gasMap_def)

lemma gas_footer_zero: "ParseInt (TrimSpace (drop 1 (''!0000'' @ [CR, LF]))) 16 32 = Some 0"
  by code_simp

lemma gas_framed_zero: "framed (''/abcde'' @ [CR, LF]) [CR, LF] gasReads (''!0000'' @ [CR, LF])"
  by code_simp

lemma GasData_fields:
  "length GasData = 4"
  "obisTag (GasData ! 1) = Some ''0-1:96.1.0''" "Type (GasData ! 1) = TString"
  "obisTag (GasData ! 2) = Some ''0-1:24.4.0''" "Type (GasData ! 2) = TPtr TString"
  "typeTag (GasData ! 2) = ''id''"
  by (simp_all add: GasData_def tagged_def)

lemma GasData_codes:
  "''0-1:24.4.0'' \<notin> obisCodes (take 2 GasData)"
  "''0-1:24.4.0'' \<notin> obisCodes (drop (Suc 2) GasData)"
  by (simp_all add: GasData_def tagged_def obisCodes_Cons obisCodes_Nil structType_def)

lemma plain_framed: "framed (''/abcde'' @ [CR, LF]) [CR, LF] plainReads (''!FA2C'' @ [CR, LF])"
  by code_simp

lemma plain_rawLines:
  "rawLinesOf plainReads = [''1-3:0.2.8(50)'', ''0-0:1.0.0(101209113020W)'', ''0-0:96.1.1(4B38)'']"
  by code_simp

lemma plain_parseLines: "parseLines (rawLinesOf plainReads) = Ok plainMap"
  unfolding plain_rawLines by (simp add: parseLines_def HasPrefix_def HasSuffix_def plainMap_def)

lemma plain_footer: "ParseInt (TrimSpace (drop 1 (''!FA2C'' @ [CR, LF]))) 16 32 = Some 64044"
  by code_simp

lemma plain_crc: "uint (crc (checkSumBodyOf (''/abcde'' @ [CR, LF]) [CR, LF] plainReads @ ''!'')) = 64044"
  by (simp add: checkSumBodyOf_def plainReads_def sent_def crc_eval)

lemma plain_checksum:
  "ParseInt (TrimSpace (drop 1 (''!FA2C'' @ [CR, LF]))) 16 32
     = Some (uint (crc (checkSumBodyOf (''/abcde'' @ [CR, LF]) [CR, LF] plainReads @ ''!'')))"
  by (simp only: plain_footer plain_crc)

lemma plain_decode:
  "\<exists>t. decodeData decimalFloat (headerTelegram (''/abcde'' @ [CR, LF])) plainMap = Some (t, [])"
  by (simp add: decodeData_def fillBlock_def fillStruct_def fillField_def Telegram_def
       tagged_def untagged_def plainMap_def Let_def zeroStruct_def
       store_def fieldElem_def headerTelegram_def)

lemma failing_framed: "framed (''/abcde'' @ [CR, LF]) [CR, LF] failingReads (''!FA2C'' @ [CR, LF])"
  by code_simp

lemma failing_rawLines:
  "rawLinesOf failingReads =
     [''1-3:0.2.8(50)'', ''0-0:1.0.0(101209113020W)'', [], ''0-0:96.1.1(4B38)'']"
  by code_simp

lemma failing_parseLines: "parseLines (rawLinesOf failingReads) = Ok failingMap"
  unfolding failing_rawLines by (simp add: parseLines_def HasPrefix_def HasSuffix_def failingMap_def)

lemma failing_body:
  "checkSumBodyOf (''/abcde'' @ [CR, LF]) [CR, LF] failingReads
     = checkSumBodyOf (''/abcde'' @ [CR, LF]) [CR, LF] plainReads"
  by (simp add: checkSumBodyOf_def failingReads_def plainReads_def)

lemma failing_checksum:
  "ParseInt (TrimSpace (drop 1 (''!FA2C'' @ [CR, LF]))) 16 32
     = Some (uint (crc (checkSumBodyOf (''/abcde'' @ [CR, LF]) [CR, LF] failingReads @ ''!'')))"
  unfolding failing_body by (rule plain_checksum)

lemma failing_decode:
  "\<exists>t. decodeData decimalFloat (headerTelegram (''/abcde'' @ [CR, LF])) failingMap = Some (t, [])"
  by (simp add: decodeData_def fillBlock_def fillStruct_def fillField_def Telegram_def
       tagged_def untagged_def failingMap_def Let_def zeroStruct_def
       store_def fieldElem_def headerTelegram_def)

lemma ElectricityData_fields:
  "length ElectricityData = 18"
  "obisTag (ElectricityData ! 7) = Some ''0-0:17.0.0''"
  "Type (ElectricityData ! 7) = TPtr TFloat32"
  "typeTag (ElectricityData ! 7) = ''unit''"
  "obisTag (ElectricityData ! 8) = Some ''0-0:96.3.10''"
  "Type (ElectricityData ! 8) = TPtr TString"
  "typeTag (ElectricityData ! 8) = ''id''"
  by (simp_all add: ElectricityData_def tagged_def)

lemma ElectricityData_codes:
  "''0-0:17.0.0'' \<notin> obisCodes (take 7 ElectricityData)"
  "''0-0:96.3.10'' \<notin> obisCodes (take 8 ElectricityData)"
  by (simp_all add: ElectricityData_def tagged_def obisCodes_Cons obisCodes_Nil)

lemma threshold_args:
  "argsError decimalFloat ''0-0:17.0.0'' ''unit'' [''12*XYZ'']
     = Some (UnitError ''0-0:17.0.0'' (UnknownUnit ''12*XYZ''))"
  "argsError decimalFloat ''0-0:96.3.10'' ''id'' [] = Some (WrongNumberOfArguments ''0-0:96.3.10'')"
  by code_simp+

section \<open>The claims\<close>

text \<open>
  C1, as amended: for a framed telegram whose checksum is valid and whose lines split,
  \<open>readTelegram\<close> returns the decoded telegram together with the errors of its fields,
  which are errors of single fields only; the driver sends the telegram on the channel
  when there is no such error, and otherwise logs the errors and sends nothing for this
  telegram. In both cases the loop goes on with the reads that follow.
\<close>

theorem driver_sends_telegrams_without_errors:
  assumes "framed header blank ds footer"
    and "ParseInt (TrimSpace (drop 1 footer)) 16 32
           = Some (uint (crc (checkSumBodyOf header blank ds @ ''!'')))"
    and "parseLines (rawLinesOf ds) = Ok data"
  shows "\<exists>t errs.
           decodeData pf (headerTelegram header) data = Some (t, errs)
           \<and> readTelegram pf (telegramReads header blank ds footer ferr @ rest)
               = Returns (Some t) errs rest
           \<and> list_all fieldLevel errs
           \<and> meterLoop pf (telegramReads header blank ds footer ferr @ rest)
               = ((if errs = [] then Sent (Some t) else Logged errs) # fst (meterLoop pf rest),
                  snd (meterLoop pf rest))"
proof -
  obtain t errs where dec: "decodeData pf (headerTelegram header) data = Some (t, errs)"
    using decodeData_total by blast
  have rd: "readTelegram pf (telegramReads header blank ds footer ferr @ rest)
          = Returns (Some t) errs rest"
    using readTelegram_framed [OF assms(1)] checkAndDecode_valid [OF assms(2,3) dec] by simp
  have "list_all fieldLevel errs"
    by (rule decodeData_fieldLevel [OF dec])
  moreover have "meterLoop pf (telegramReads header blank ds footer ferr @ rest)
               = ((if errs = [] then Sent (Some t) else Logged errs) # fst (meterLoop pf rest),
                  snd (meterLoop pf rest))"
    using meterLoop_Returns [OF rd] by simp
  ultimately show ?thesis using dec rd by blast
qed

theorem driver_sends_telegrams_without_errors_witness:
  "framed (''/abcde'' @ [CR, LF]) [CR, LF] plainReads (''!FA2C'' @ [CR, LF])
   \<and> parseLines (rawLinesOf plainReads) = Ok plainMap
   \<and> (\<exists>t. meterLoop decimalFloat
              (telegramReads (''/abcde'' @ [CR, LF]) [CR, LF] plainReads (''!FA2C'' @ [CR, LF]) None @ [])
            = ([Sent (Some t)], Reading))"
proof -
  from plain_decode obtain t0 where
    d0: "decodeData decimalFloat (headerTelegram (''/abcde'' @ [CR, LF])) plainMap = Some (t0, [])"
    by blast
  from driver_sends_telegrams_without_errors
         [OF plain_framed plain_checksum plain_parseLines, of decimalFloat None "[]"] d0
  have "meterLoop decimalFloat
          (telegramReads (''/abcde'' @ [CR, LF]) [CR, LF] plainReads (''!FA2C'' @ [CR, LF]) None @ [])
        = ([Sent (Some t0)], Reading)"
    by (auto simp: meterLoop_Nil)
  with plain_framed plain_parseLines show ?thesis by blast
qed

text \<open>
  The claim as it is written fails on the telegram with the gas record: it is framed, its
  checksum is valid, its decoding gives two errors of fields (the gas block lacks two
  required codes), and the driver logs them and sends no telegram.
\<close>

theorem driver_drops_telegram_with_field_errors:
  "framed (''/abcde'' @ [CR, LF]) [CR, LF] gasReads (''!6010'' @ [CR, LF])
   \<and> ParseInt (TrimSpace (drop 1 (''!6010'' @ [CR, LF]))) 16 32
       = Some (uint (crc (checkSumBodyOf (''/abcde'' @ [CR, LF]) [CR, LF] gasReads @ ''!'')))
   \<and> telegramOf (readTelegram decimalFloat
         (telegramReads (''/abcde'' @ [CR, LF]) [CR, LF] gasReads (''!6010'' @ [CR, LF]) None))
       \<noteq> None
   \<and> errorsOf (readTelegram decimalFloat
         (telegramReads (''/abcde'' @ [CR, LF]) [CR, LF] gasReads (''!6010'' @ [CR, LF]) None))
       = [MissingData ''0-1:24.1.0'', MissingData ''0-1:96.1.0'']
   \<and> meterLoop decimalFloat
        (telegramReads (''/abcde'' @ [CR, LF]) [CR, LF] gasReads (''!6010'' @ [CR, LF]) None)
       = ([Logged [MissingData ''0-1:24.1.0'', MissingData ''0-1:96.1.0'']], Reading)"
proof -
  from gas_decode obtain t0 where
    d0: "decodeData decimalFloat (headerTelegram (''/abcde'' @ [CR, LF])) gasMap
           = Some (t0, [MissingData ''0-1:24.1.0'', MissingData ''0-1:96.1.0''])"
    by blast
  have rd: "readTelegram decimalFloat
              (telegramReads (''/abcde'' @ [CR, LF]) [CR, LF] gasReads (''!6010'' @ [CR, LF]) None)
            = Returns (Some t0) [MissingData ''0-1:24.1.0'', MissingData ''0-1:96.1.0''] []"
    using readTelegram_framed [OF gas_framed, of decimalFloat None "[]"]
      checkAndDecode_valid [OF gas_checksum gas_parseLines d0]
    by simp
  from meterLoop_Returns [OF rd]
  have "meterLoop decimalFloat
        (telegramReads (''/abcde'' @ [CR, LF]) [CR, LF] gasReads (''!6010'' @ [CR, LF]) None)
       = ([Logged [MissingData ''0-1:24.1.0'', MissingData ''0-1:96.1.0'']], Reading)"
    by (simp add: meterLoop_Nil)
  with gas_framed gas_checksum show ?thesis unfolding rd by simp
qed

text \<open>
  C2: a header line (a line that begins with \<open>/\<close>, as \<open>readTelegram\<close> reads it, with
  its end of line). On fewer than five bytes \<open>readTelegram\<close> returns the error "Header
  line too short" and no telegram. On exactly five bytes the check \<open>len(line) < 5\<close> lets
  the line pass and \<open>line[:6]\<close> panics. On six bytes or more, every telegram that is
  returned has the first six bytes of the line as its marker and the trimmed rest as its
  identifier.
\<close>

theorem header_line_lengths:
  assumes "HasPrefix line ''/''"
  shows "(length line < 5 \<longrightarrow>
            readTelegram pf ((line, None) # rest) = Returns None [HeaderLineTooShort] rest)
         \<and> (length line = 5 \<longrightarrow> readTelegram pf ((line, None) # rest) = Panics)
         \<and> (6 \<le> length line \<longrightarrow>
              (\<forall>t errs r. readTelegram pf ((line, None) # rest) = Returns (Some t) errs r \<longrightarrow>
                 HeaderMarker t = take 6 line \<and> HeaderId t = TrimSpace (drop 6 line)))"
proof (intro conjI impI allI)
  assume "length line < 5"
  with assms show "readTelegram pf ((line, None) # rest) = Returns None [HeaderLineTooShort] rest"
    by (simp add: parseHeader_def)
next
  assume "length line = 5"
  with assms show "readTelegram pf ((line, None) # rest) = Panics"
    by (simp add: parseHeader_def)
next
  fix t errs r
  assume "readTelegram pf ((line, None) # rest) = Returns (Some t) errs r"
  with assms have "parseHeader pf line rest = Returns (Some t) errs r"
    by simp
  from parseHeader_decoded [OF this] obtain data where
    "decodeData pf (headerTelegram line) data = Some (t, errs)"
    by blast
  from decodeData_header [OF this]
  show "HeaderMarker t = take 6 line" and "HeaderId t = TrimSpace (drop 6 line)"
    by (simp_all add: HeaderMarker_def HeaderId_def fieldIndex_blocks headerTelegram_fields)
qed

theorem header_line_lengths_witness:
  "HasPrefix (''/ab'' @ [LF]) ''/'' \<and> HasPrefix (''/abc'' @ [LF]) ''/''
   \<and> readTelegram decimalFloat [(''/ab'' @ [LF], None), ([LF], None)]
       = Returns None [HeaderLineTooShort] [([LF], None)]
   \<and> readTelegram decimalFloat [(''/abc'' @ [LF], None), ([LF], None)] = Panics
   \<and> (\<exists>t. readTelegram decimalFloat
              (telegramReads (''/abcde'' @ [CR, LF]) [CR, LF] plainReads (''!FA2C'' @ [CR, LF]) None)
              = Returns (Some t) [] []
            \<and> HeaderMarker t = ''/abcde'' \<and> HeaderId t = [])"
proof -
  have short: "HasPrefix (''/ab'' @ [LF]) ''/'' \<and> HasPrefix (''/abc'' @ [LF]) ''/''
      \<and> readTelegram decimalFloat [(''/ab'' @ [LF], None), ([LF], None)]
          = Returns None [HeaderLineTooShort] [([LF], None)]
      \<and> readTelegram decimalFloat [(''/abc'' @ [LF], None), ([LF], None)] = Panics"
    using header_line_lengths [of "''/ab'' @ [LF]" decimalFloat "[([LF], None)]"]
      header_line_lengths [of "''/abc'' @ [LF]" decimalFloat "[([LF], None)]"]
    by (simp add: HasPrefix_def)
  from plain_decode obtain t0 where
    d0: "decodeData decimalFloat (headerTelegram (''/abcde'' @ [CR, LF])) plainMap = Some (t0, [])"
    by blast
  have rd: "readTelegram decimalFloat
              (telegramReads (''/abcde'' @ [CR, LF]) [CR, LF] plainReads (''!FA2C'' @ [CR, LF]) None)
            = Returns (Some t0) [] []"
    using readTelegram_framed [OF plain_framed, of decimalFloat None "[]"]
      checkAndDecode_valid [OF plain_checksum plain_parseLines d0]
    by simp
  have hp: "HasPrefix (''/abcde'' @ [CR, LF]) ''/''" by (simp add: HasPrefix_def)
  have trim: "TrimSpace (drop 6 (''/abcde'' @ [CR, LF])) = []" by code_simp
  from header_line_lengths [OF hp, of decimalFloat
      "([CR, LF], None) # plainReads @ [(''!FA2C'' @ [CR, LF], None)]"] rd
  have "HeaderMarker t0 = ''/abcde'' \<and> HeaderId t0 = []"
    unfolding trim by (simp add: telegramReads_def)
  with rd short show ?thesis by blast
qed

text \<open>
  C3: for every framed telegram, the checksum is \<open>crc16.Update\<close> with the IBM table,
  started at 0xFFFF, over the bytes read from the header up to the footer followed by one
  \<open>!\<close>, XORed with 0xFFFF; what follows the first byte of the footer line is trimmed and
  parsed as a hexadecimal integer. The telegram passes on to the line splitter and the
  decoder exactly when the parsed value is the checksum, which is below \<open>2 ^ 16\<close>; a
  parsed value that differs returns the error "CRC mismatch" and no telegram, and a footer
  that does not parse returns an error of its own and no telegram.
\<close>

theorem checksum_validation:
  assumes "framed header blank ds footer"
  shows "let crc1 = crc16_Update 0xffff IBMTable (checkSumBodyOf header blank ds @ ''!'') XOR 0xffff;
             crc2 = ParseInt (TrimSpace (drop 1 footer)) 16 32;
             result = readTelegram pf (telegramReads header blank ds footer ferr @ rest)
         in uint crc1 < 2 ^ 16
            \<and> (crc2 = Some (uint crc1) \<longrightarrow>
                 result = (case parseLines (rawLinesOf ds) of
                             Panic \<Rightarrow> Panics
                           | Failed err \<Rightarrow> Returns None [err] rest
                           | Ok data \<Rightarrow>
                               (case decodeData pf (headerTelegram header) data of
                                  None \<Rightarrow> Panics
                                | Some (t, errs) \<Rightarrow> Returns (Some t) errs rest)))
            \<and> (crc2 \<noteq> None \<and> crc2 \<noteq> Some (uint crc1) \<longrightarrow> result = Returns None [CRCMismatch] rest)
            \<and> (crc2 = None \<longrightarrow> result = Returns None [CouldNotParseChecksum] rest)
            \<and> ((crc2 = Some (uint crc1)) =
                 (result \<noteq> Returns None [CRCMismatch] rest
                  \<and> result \<noteq> Returns None [CouldNotParseChecksum] rest))"
proof -
  define crc1 where "crc1 = crc16_Update 0xffff IBMTable (checkSumBodyOf header blank ds @ ''!'') XOR 0xffff"
  define crc2 where "crc2 = ParseInt (TrimSpace (drop 1 footer)) 16 32"
  define result where "result = readTelegram pf (telegramReads header blank ds footer ferr @ rest)"
  define cont where "cont = (case parseLines (rawLinesOf ds) of
                             Panic \<Rightarrow> Panics
                           | Failed err \<Rightarrow> Returns None [err] rest
                           | Ok data \<Rightarrow>
                               (case decodeData pf (headerTelegram header) data of
                                  None \<Rightarrow> Panics
                                | Some (t, errs) \<Rightarrow> Returns (Some t) errs rest))"
  have c: "crc (checkSumBodyOf header blank ds @ ''!'') = crc1"
    by (simp add: crc1_def crc_def)
  have r: "result = checkAndDecode pf (headerTelegram header) (checkSumBodyOf header blank ds)
             (rawLinesOf ds) footer rest"
    unfolding result_def by (rule readTelegram_framed [OF assms])
  have bound: "uint crc1 < 2 ^ 16"
    using uint_bounded [of crc1] by simp
  have ok: "crc2 = Some (uint crc1) \<Longrightarrow> result = cont"
    unfolding r cont_def crc2_def by (simp add: checkAndDecode_def c)
  have mismatch: "crc2 \<noteq> None \<Longrightarrow> crc2 \<noteq> Some (uint crc1) \<Longrightarrow> result = Returns None [CRCMismatch] rest"
    unfolding r crc2_def by (auto simp: checkAndDecode_def c)
  have noparse: "crc2 = None \<Longrightarrow> result = Returns None [CouldNotParseChecksum] rest"
    unfolding r crc2_def by (simp add: checkAndDecode_def c)
  have cont_other: "cont \<noteq> Returns None [CRCMismatch] rest \<and> cont \<noteq> Returns None [CouldNotParseChecksum] rest"
  proof (cases "parseLines (rawLinesOf ds)")
    case Panic
    then show ?thesis by (simp add: cont_def)
  next
    case (Failed e)
    with parseLines_Failed [OF Failed] show ?thesis by (auto simp: cont_def)
  next
    case (Ok data)
    then show ?thesis by (auto simp: cont_def split: option.splits)
  qed
  have iff: "(crc2 = Some (uint crc1)) =
             (result \<noteq> Returns None [CRCMismatch] rest \<and> result \<noteq> Returns None [CouldNotParseChecksum] rest)"
  proof (cases "crc2 = Some (uint crc1)")
    case True
    with ok cont_other show ?thesis by simp
  next
    case False
    show ?thesis
    proof (cases "crc2 = None")
      case True
      with noparse False show ?thesis by simp
    next
      case nn: False
      with mismatch False show ?thesis by simp
    qed
  qed
  from bound ok mismatch noparse iff show ?thesis
    unfolding Let_def crc1_def [symmetric] crc2_def [symmetric] result_def [symmetric]
      cont_def [symmetric]
    by blast
qed

theorem checksum_validation_witness:
  "framed (''/abcde'' @ [CR, LF]) [CR, LF] gasReads (''!6010'' @ [CR, LF])
   \<and> framed (''/abcde'' @ [CR, LF]) [CR, LF] gasReads (''!0000'' @ [CR, LF])
   \<and> readTelegram decimalFloat
        (telegramReads (''/abcde'' @ [CR, LF]) [CR, LF] gasReads (''!6010'' @ [CR, LF]) None @ [])
       \<noteq> Returns None [CRCMismatch] []
   \<and> readTelegram decimalFloat
        (telegramReads (''/abcde'' @ [CR, LF]) [CR, LF] gasReads (''!0000'' @ [CR, LF]) None @ [])
       = Returns None [CRCMismatch] []"
proof -
  let ?valid = "readTelegram decimalFloat
        (telegramReads (''/abcde'' @ [CR, LF]) [CR, LF] gasReads (''!6010'' @ [CR, LF]) None @ [])"
  let ?invalid = "readTelegram decimalFloat
        (telegramReads (''/abcde'' @ [CR, LF]) [CR, LF] gasReads (''!0000'' @ [CR, LF]) None @ [])"
  have c: "uint (crc16_Update 0xffff IBMTable
             (checkSumBodyOf (''/abcde'' @ [CR, LF]) [CR, LF] gasReads @ ''!'') XOR 0xffff) = 24592"
    using gas_crc by (simp add: crc_def)
  note valid = checksum_validation [OF gas_framed, of decimalFloat None "[]",
      unfolded Let_def c gas_footer]
  note invalid = checksum_validation [OF gas_framed_zero, of decimalFloat None "[]",
      unfolded Let_def c gas_footer_zero]
  from valid have "(Some (24592 :: int) = Some 24592) =
      (?valid \<noteq> Returns None [CRCMismatch] [] \<and> ?valid \<noteq> Returns None [CouldNotParseChecksum] [])"
    by blast
  then have v: "?valid \<noteq> Returns None [CRCMismatch] []" by simp
  from invalid have "Some (0 :: int) \<noteq> None \<and> Some (0 :: int) \<noteq> Some 24592 \<longrightarrow>
      ?invalid = Returns None [CRCMismatch] []"
    by blast
  then have i: "?invalid = Returns None [CRCMismatch] []" by simp
  from v i gas_framed gas_framed_zero show ?thesis by blast
qed

text \<open>
  C4: an error of the byte source. While \<open>readTelegram\<close> waits for the header, and when it
  reads the line after the header, the error is returned with no telegram. In the loop
  that reads the data lines the error is assigned and never tested: a read that fails
  counts as the line of the bytes it brought, and after any number of reads that fail
  and bring no byte \<open>readTelegram\<close> is still reading. So on the plain telegram with a
  failing read among its data lines, \<open>readTelegram\<close> returns a telegram and no error, and
  the driver sends the telegram.
\<close>

theorem data_read_error_ignored:
  "readTelegram pf ((line, Some e) # rest) = Returns None [e] rest
   \<and> parseHeader pf header ((line, Some e) # rest)
       = (if length header < 5 then Returns None [HeaderLineTooShort] ((line, Some e) # rest)
          else if length header < 6 then Panics
          else Returns None [e] rest)
   \<and> readData pf ret body rawLines ((line, Some e) # rest)
       = readData pf ret body rawLines ((line, None) # rest)
   \<and> readData pf ret body rawLines (replicate n ([], Some e)) = Blocks
   \<and> telegramOf (readTelegram decimalFloat
         (telegramReads (''/abcde'' @ [CR, LF]) [CR, LF] failingReads (''!FA2C'' @ [CR, LF]) None))
       \<noteq> None
   \<and> errorsOf (readTelegram decimalFloat
         (telegramReads (''/abcde'' @ [CR, LF]) [CR, LF] failingReads (''!FA2C'' @ [CR, LF]) None))
       = []
   \<and> snd (meterLoop decimalFloat
         (telegramReads (''/abcde'' @ [CR, LF]) [CR, LF] failingReads (''!FA2C'' @ [CR, LF]) None))
       = Reading
   \<and> list_all (\<lambda>ev. case ev of Sent t \<Rightarrow> t \<noteq> None | Logged errs \<Rightarrow> False)
        (fst (meterLoop decimalFloat
           (telegramReads (''/abcde'' @ [CR, LF]) [CR, LF] failingReads (''!FA2C'' @ [CR, LF]) None)))
   \<and> length (fst (meterLoop decimalFloat
           (telegramReads (''/abcde'' @ [CR, LF]) [CR, LF] failingReads (''!FA2C'' @ [CR, LF]) None)))
       = 1"
proof -
  from failing_decode obtain t0 where
    d0: "decodeData decimalFloat (headerTelegram (''/abcde'' @ [CR, LF])) failingMap = Some (t0, [])"
    by blast
  have rd: "readTelegram decimalFloat
              (telegramReads (''/abcde'' @ [CR, LF]) [CR, LF] failingReads (''!FA2C'' @ [CR, LF]) None)
            = Returns (Some t0) [] []"
    using readTelegram_framed [OF failing_framed, of decimalFloat None "[]"]
      checkAndDecode_valid [OF failing_checksum failing_parseLines d0]
    by simp
  have ml: "meterLoop decimalFloat
              (telegramReads (''/abcde'' @ [CR, LF]) [CR, LF] failingReads (''!FA2C'' @ [CR, LF]) None)
            = ([Sent (Some t0)], Reading)"
    using meterLoop_Returns [OF rd] by (simp add: meterLoop_Nil)
  have a: "readTelegram pf ((line, Some e) # rest) = Returns None [e] rest"
    by simp
  have b: "parseHeader pf header ((line, Some e) # rest)
       = (if length header < 5 then Returns None [HeaderLineTooShort] ((line, Some e) # rest)
          else if length header < 6 then Panics
          else Returns None [e] rest)"
    by (simp add: parseHeader_def Let_def)
  have c: "readData pf ret body rawLines ((line, Some e) # rest)
       = readData pf ret body rawLines ((line, None) # rest)"
    by simp
  have d: "readData pf ret body rawLines (replicate n ([], Some e)) = Blocks"
    by (induction n arbitrary: body rawLines) (simp_all add: HasPrefix_def)
  show ?thesis
    unfolding rd ml by (intro conjI a b c d) simp_all
qed

text \<open>
  C5: \<open>parseUnit\<close> cuts its token at the first \<open>*\<close> and fails with "not a unit" when
  there is none; it parses what stands before as a floating-point number and fails when
  that does not parse; it multiplies the number by 1000 for the unit \<open>kW\<close> and by 1 for
  \<open>kWh\<close>, \<open>W\<close>, \<open>s\<close>, \<open>m3\<close>, \<open>A\<close> and \<open>V\<close>, in \<open>float32\<close>, and fails with "unknown
  unit" for any other unit. With \<open>ParseFloat\<close> returning the nearest \<open>float32\<close> on the
  three amounts, \<open>228.584*kWh\<close> gives the \<open>float32\<close> nearest to 228.584, \<open>1.193*kW\<close> gives
  1193 exactly, and \<open>1*XYZ\<close> fails with "unknown unit".
\<close>

theorem parseUnit_normalizes:
  assumes "ParseFloat ''228.584'' = Some (round32 (228584 / 1000))"
    and "ParseFloat ''1.193'' = Some (round32 (1193 / 1000))"
    and "ParseFloat ''1'' = Some (Finite 1)"
  shows "parseUnit ParseFloat v =
           (if CHR ''*'' \<notin> set v then Inl (NotAUnit v)
            else (case ParseFloat (takeWhile (\<lambda>c. c \<noteq> CHR ''*'') v) of
                    None \<Rightarrow> Inl CouldNotParseAmount
                  | Some amount \<Rightarrow>
                      if tl (dropWhile (\<lambda>c. c \<noteq> CHR ''*'') v) = ''kW''
                      then Inr (mul32 amount (Finite 1000))
                      else if tl (dropWhile (\<lambda>c. c \<noteq> CHR ''*'') v)
                                \<in> set [''kWh'', ''W'', ''s'', ''m3'', ''A'', ''V'']
                      then Inr (mul32 amount (Finite 1))
                      else Inl (UnknownUnit v)))
         \<and> parseUnit ParseFloat ''228.584*kWh'' = Inr (round32 (228584 / 1000))
         \<and> round32 (228584 / 1000) = Finite (14980481 / 65536)
         \<and> parseUnit ParseFloat ''1.193*kW'' = Inr (Finite 1193)
         \<and> parseUnit ParseFloat ''1*XYZ'' = Inl (UnknownUnit ''1*XYZ'')"
proof -
  have cut:
    "takeWhile (\<lambda>c. c \<noteq> CHR ''*'') ''228.584*kWh'' = ''228.584''"
    "tl (dropWhile (\<lambda>c. c \<noteq> CHR ''*'') ''228.584*kWh'') = ''kWh''"
    "takeWhile (\<lambda>c. c \<noteq> CHR ''*'') ''1.193*kW'' = ''1.193''"
    "tl (dropWhile (\<lambda>c. c \<noteq> CHR ''*'') ''1.193*kW'') = ''kW''"
    "takeWhile (\<lambda>c. c \<noteq> CHR ''*'') ''1*XYZ'' = ''1''"
    "tl (dropWhile (\<lambda>c. c \<noteq> CHR ''*'') ''1*XYZ'') = ''XYZ''"
    by simp_all
  have a: "parseUnit ParseFloat ''228.584*kWh'' = Inr (round32 (228584 / 1000))"
    unfolding parseUnit_cases cut assms(1) float_228_584 by (simp add: mul_228_584 del: mul32.simps)
  have b: "parseUnit ParseFloat ''1.193*kW'' = Inr (Finite 1193)"
    unfolding parseUnit_cases cut assms(2) float_1_193 by (simp add: mul_1_193 del: mul32.simps)
  have c: "parseUnit ParseFloat ''1*XYZ'' = Inl (UnknownUnit ''1*XYZ'')"
    unfolding parseUnit_cases cut assms(3) by simp
  show ?thesis
    by (intro conjI a b c float_228_584 parseUnit_cases)
qed

theorem parseUnit_normalizes_witness:
  "decimalFloat ''228.584'' = Some (round32 (228584 / 1000))
   \<and> decimalFloat ''1.193'' = Some (round32 (1193 / 1000))
   \<and> decimalFloat ''1'' = Some (Finite 1)
   \<and> parseUnit decimalFloat ''228.584*kWh'' = Inr (Finite (14980481 / 65536))
   \<and> parseUnit decimalFloat ''1.193*kW'' = Inr (Finite 1193)
   \<and> parseUnit decimalFloat ''1*XYZ'' = Inl (UnknownUnit ''1*XYZ'')
   \<and> parseUnit decimalFloat ''1193'' = Inl (NotAUnit ''1193'')"
proof -
  note th = parseUnit_normalizes [OF decimalFloat_examples, of "''1193''"]
  from th have "parseUnit decimalFloat ''228.584*kWh'' = Inr (round32 (228584 / 1000))"
    by blast
  then have a: "parseUnit decimalFloat ''228.584*kWh'' = Inr (Finite (14980481 / 65536))"
    unfolding float_228_584 .
  from th have b: "parseUnit decimalFloat ''1.193*kW'' = Inr (Finite 1193)"
    and c: "parseUnit decimalFloat ''1*XYZ'' = Inl (UnknownUnit ''1*XYZ'')"
    by blast+
  from th have "parseUnit decimalFloat ''1193'' =
           (if CHR ''*'' \<notin> set ''1193'' then Inl (NotAUnit ''1193'')
            else (case decimalFloat (takeWhile (\<lambda>c. c \<noteq> CHR ''*'') ''1193'') of
                    None \<Rightarrow> Inl CouldNotParseAmount
                  | Some amount \<Rightarrow>
                      if tl (dropWhile (\<lambda>c. c \<noteq> CHR ''*'') ''1193'') = ''kW''
                      then Inr (mul32 amount (Finite 1000))
                      else if tl (dropWhile (\<lambda>c. c \<noteq> CHR ''*'') ''1193'')
                                \<in> set [''kWh'', ''W'', ''s'', ''m3'', ''A'', ''V'']
                      then Inr (mul32 amount (Finite 1))
                      else Inl (UnknownUnit ''1193'')))"
    by blast
  then have d: "parseUnit decimalFloat ''1193'' = Inl (NotAUnit ''1193'')"
    by simp
  show ?thesis
    by (intro conjI decimalFloat_examples a b c d)
qed

text \<open>
  C6, as amended: when the merge of the raw lines gives lines on two of which the same
  code stands, \<open>parseLines\<close> returns an error, which is the error of a malformed argument
  or the error of a repeated code, and \<open>readTelegram\<close> then returns one error and no
  telegram; when moreover every line is well formed, the error is the error of a repeated
  code, for a code of the data section.
\<close>

theorem duplicate_code_aborts:
  assumes "mergeLines [] rawLines = Some lines"
    and "\<not> distinct (map obisOf lines)"
  shows "(\<exists>e. parseLines rawLines = Failed e
              \<and> ((\<exists>l \<in> set lines. e = MalformedArgument l) \<or> (\<exists>c. e = MultipleOccurances c)))
         \<and> (list_all wellFormed lines \<longrightarrow>
               (\<exists>c \<in> set (map obisOf lines). parseLines rawLines = Failed (MultipleOccurances c)))
         \<and> (\<exists>e. checkAndDecode pf ret body rawLines footer rest = Returns None [e] rest)"
proof -
  have pl: "parseLines rawLines = parseEach Map.empty lines"
    using assms(1) by (simp add: parseLines_def)
  from parseEach_duplicate_fails [of lines Map.empty] assms(2)
  obtain e where e: "parseLines rawLines = Failed e"
    unfolding pl by blast
  from parseEach_Failed [of Map.empty lines e] e
  have kind: "(\<exists>l \<in> set lines. e = MalformedArgument l) \<or> (\<exists>c. e = MultipleOccurances c)"
    unfolding pl by blast
  have wf: "list_all wellFormed lines \<longrightarrow>
               (\<exists>c \<in> set (map obisOf lines). parseLines rawLines = Failed (MultipleOccurances c))"
    using parseEach_duplicate_code [of lines Map.empty] assms(2) unfolding pl by blast
  have "\<exists>e'. checkAndDecode pf ret body rawLines footer rest = Returns None [e'] rest"
    using e by (auto simp: checkAndDecode_def Let_def split: option.splits)
  with e kind wf show ?thesis by blast
qed

theorem duplicate_code_aborts_witness:
  "mergeLines [] [''a(1)'', ''b(2)'', ''a(3)''] = Some [''a(1)'', ''b(2)'', ''a(3)'']
   \<and> \<not> distinct (map obisOf [''a(1)'', ''b(2)'', ''a(3)''])
   \<and> list_all wellFormed [''a(1)'', ''b(2)'', ''a(3)'']
   \<and> (\<exists>c \<in> set (map obisOf [''a(1)'', ''b(2)'', ''a(3)'']).
         parseLines [''a(1)'', ''b(2)'', ''a(3)''] = Failed (MultipleOccurances c))"
proof -
  have m: "mergeLines [] [''a(1)'', ''b(2)'', ''a(3)''] = Some [''a(1)'', ''b(2)'', ''a(3)'']"
    by (simp add: HasPrefix_def)
  have d: "\<not> distinct (map obisOf [''a(1)'', ''b(2)'', ''a(3)''])"
    by (simp add: obisOf_def)
  have w: "list_all wellFormed [''a(1)'', ''b(2)'', ''a(3)'']"
    by (simp add: wellFormed_def HasSuffix_def)
  from duplicate_code_aborts [OF m d] w m d show ?thesis by blast
qed

text \<open>
  The claim as it is written fails on the data section \<open>a(1)\<close>, \<open>a(2\<close>: the code \<open>a\<close>
  stands on two lines, and the error is the error of a malformed argument.
\<close>

theorem duplicate_code_malformed_first:
  "mergeLines [] [''a(1)'', ''a(2''] = Some [''a(1)'', ''a(2'']
   \<and> \<not> distinct (map obisOf [''a(1)'', ''a(2''])
   \<and> parseLines [''a(1)'', ''a(2''] = Failed (MalformedArgument ''a(2'')"
  by (simp add: parseLines_def HasPrefix_def HasSuffix_def obisOf_def)

text \<open>
  C7: a registry entry (a tagged field, of index \<open>i\<close>) whose code is absent from the map.
  The loop of \<open>fillStruct\<close> reaches the field, leaves the struct and the map as they are,
  appends the error "Missing data for <code>" when the field is no pointer and nothing
  when it is one, and goes on with the fields that follow. In what \<open>fillStruct\<close> returns
  the field still has the value it had (its zero value in a fresh struct, nil for a
  pointer), the error is among the errors when the field is no pointer, and no error
  names the code when the field is a pointer and no other field has the code.
\<close>

theorem absent_code:
  assumes "list_all wellTagged st"
    and "i < length st"
    and "obisTag (st ! i) = Some obis"
    and "data obis = None"
  shows "\<exists>sv1 data1 ret1 sv' data' errs.
           fillFields pf (take i st) 0 (sv, data, []) = Some (sv1, data1, ret1)
           \<and> fillField pf (st ! i) i (sv1, data1, ret1)
               = Some (sv1, data1,
                       if Kind (Type (st ! i)) \<noteq> Ptr then ret1 @ [MissingData obis] else ret1)
           \<and> fillStruct pf st sv data
               = fillFields pf (drop (Suc i) st) (Suc i)
                   (sv1, data1,
                    if Kind (Type (st ! i)) \<noteq> Ptr then ret1 @ [MissingData obis] else ret1)
           \<and> fillStruct pf st sv data = Some (sv', data', errs)
           \<and> sv' ! i = sv ! i
           \<and> (Kind (Type (st ! i)) \<noteq> Ptr \<longrightarrow> MissingData obis \<in> set errs)
           \<and> (Kind (Type (st ! i)) = Ptr \<and> obis \<notin> obisCodes (take i st)
                 \<and> obis \<notin> obisCodes (drop (Suc i) st)
               \<longrightarrow> list_all (\<lambda>e. errorCode e \<noteq> Some obis) errs)"
proof -
  let ?ret = "\<lambda>ret1. if Kind (Type (st ! i)) \<noteq> Ptr then ret1 @ [MissingData obis] else ret1"
  obtain s1 where "fillFields pf (take i st) 0 (sv, data, []) = Some s1"
    using fillFields_wellTagged [where fs = "take i st" and pf = pf and k = 0 and s = "(sv, data, [])"]
      list_all_take [OF assms(1)]
    by auto
  then obtain sv1 data1 ret1 where
    pre: "fillFields pf (take i st) 0 (sv, data, []) = Some (sv1, data1, ret1)"
    by (cases s1) auto
  have d1: "data1 obis = None"
    using fillFields_data [OF pre] assms(4) by (simp add: restrict_map_def)
  have step: "fillField pf (st ! i) i (sv1, data1, ret1) = Some (sv1, data1, ?ret ret1)"
    using fillField_absent [where data = data1 and obis = obis, OF assms(3) d1] by simp
  have whole: "fillStruct pf st sv data
               = fillFields pf (drop (Suc i) st) (Suc i) (sv1, data1, ?ret ret1)"
    unfolding fillStruct_def fillFields_split [OF assms(2)] pre using step by simp
  obtain s2 where "fillFields pf (drop (Suc i) st) (Suc i) (sv1, data1, ?ret ret1) = Some s2"
    using fillFields_wellTagged [where fs = "drop (Suc i) st" and pf = pf and k = "Suc i"
            and s = "(sv1, data1, ?ret ret1)"]
      list_all_drop [OF assms(1)]
    by auto
  then obtain sv' data' errs where
    post: "fillFields pf (drop (Suc i) st) (Suc i) (sv1, data1, ?ret ret1) = Some (sv', data', errs)"
    by (cases s2) auto
  have len: "length (take i st) = i" using assms(2) by simp
  have "sv1 ! i = sv ! i"
    using fillFields_sv [OF pre] len by simp
  moreover have "sv' ! i = sv1 ! i"
    using fillFields_sv [OF post] by simp
  ultimately have keep: "sv' ! i = sv ! i" by simp
  from fillFields_errors [OF post] obtain es where es: "errs = ?ret ret1 @ es" by blast
  then have missing: "Kind (Type (st ! i)) \<noteq> Ptr \<longrightarrow> MissingData obis \<in> set errs"
    by simp
  have quiet: "Kind (Type (st ! i)) = Ptr \<and> obis \<notin> obisCodes (take i st)
                 \<and> obis \<notin> obisCodes (drop (Suc i) st)
               \<longrightarrow> list_all (\<lambda>e. errorCode e \<noteq> Some obis) errs"
  proof (intro impI, elim conjE)
    assume ptr: "Kind (Type (st ! i)) = Ptr"
      and before: "obis \<notin> obisCodes (take i st)"
      and after: "obis \<notin> obisCodes (drop (Suc i) st)"
    have "list_all (\<lambda>e. errorCode e \<noteq> Some obis) ret1"
      using fillFields_codes_of_errors [OF pre before] by simp
    with ptr have "list_all (\<lambda>e. errorCode e \<noteq> Some obis) (?ret ret1)" by simp
    from fillFields_codes_of_errors [OF post after this]
    show "list_all (\<lambda>e. errorCode e \<noteq> Some obis) errs" .
  qed
  from pre step whole post keep missing quiet show ?thesis
    by (intro exI [of _ sv1] exI [of _ data1] exI [of _ ret1] exI [of _ sv'] exI [of _ data']
          exI [of _ errs]) simp
qed

theorem absent_code_witness:
  "gasMap ''0-1:96.1.0'' = None \<and> gasMap ''0-1:24.4.0'' = None
   \<and> (\<exists>sv' data' errs.
         fillStruct decimalFloat GasData (zeroStruct GasData) gasMap = Some (sv', data', errs)
         \<and> sv' ! 1 = VString [] \<and> MissingData ''0-1:96.1.0'' \<in> set errs)
   \<and> (\<exists>sv' data' errs.
         fillStruct decimalFloat GasData (zeroStruct GasData) gasMap = Some (sv', data', errs)
         \<and> sv' ! 2 = VPtr None \<and> list_all (\<lambda>e. errorCode e \<noteq> Some ''0-1:24.4.0'') errs)"
proof -
  have z: "zeroStruct GasData ! 1 = VString []" "zeroStruct GasData ! 2 = VPtr None"
    by (simp_all add: zeroStruct_def GasData_def tagged_def)
  have i1: "(1::nat) < length GasData" and i2: "(2::nat) < length GasData"
    by (simp_all add: GasData_fields)
  from absent_code [where st = GasData and i = 1 and obis = "''0-1:96.1.0''" and data = gasMap
      and pf = decimalFloat and sv = "zeroStruct GasData",
      OF wellTagged_GasData i1 GasData_fields(2) gasMap_absent(1)]
  have a: "\<exists>sv' data' errs.
         fillStruct decimalFloat GasData (zeroStruct GasData) gasMap = Some (sv', data', errs)
         \<and> sv' ! 1 = VString [] \<and> MissingData ''0-1:96.1.0'' \<in> set errs"
    unfolding GasData_fields z by auto
  from absent_code [where st = GasData and i = 2 and obis = "''0-1:24.4.0''" and data = gasMap
      and pf = decimalFloat and sv = "zeroStruct GasData",
      OF wellTagged_GasData i2 GasData_fields(4) gasMap_absent(2)] GasData_codes
  have b: "\<exists>sv' data' errs.
         fillStruct decimalFloat GasData (zeroStruct GasData) gasMap = Some (sv', data', errs)
         \<and> sv' ! 2 = VPtr None \<and> list_all (\<lambda>e. errorCode e \<noteq> Some ''0-1:24.4.0'') errs"
    unfolding GasData_fields z by auto
  from a b gasMap_absent show ?thesis by blast
qed

text \<open>
  C8: after a telegram is decoded, its \<open>Other\<close> is the map of the line splitter
  without the codes of the registries applied to it: it holds exactly the codes that no
  applied registry claims, each with its list of arguments as it was, and no claimed code.
\<close>

theorem Other_residual:
  assumes "framed header blank ds footer"
    and "ParseInt (TrimSpace (drop 1 footer)) 16 32
           = Some (uint (crc (checkSumBodyOf header blank ds @ ''!'')))"
    and "parseLines (rawLinesOf ds) = Ok data"
  shows "\<exists>t errs.
           readTelegram pf (telegramReads header blank ds footer ferr @ rest)
             = Returns (Some t) errs rest
           \<and> Other t = data |` (- claimedCodes data)
           \<and> dom (Other t) = dom data - claimedCodes data
           \<and> (\<forall>c \<in> dom (Other t). Other t c = data c)"
proof -
  obtain t errs where dec: "decodeData pf (headerTelegram header) data = Some (t, errs)"
    using decodeData_total by blast
  have "readTelegram pf (telegramReads header blank ds footer ferr @ rest)
          = Returns (Some t) errs rest"
    using readTelegram_framed [OF assms(1)] checkAndDecode_valid [OF assms(2,3) dec] by simp
  moreover have o: "Other t = data |` (- claimedCodes data)"
    by (rule decodeData_Other [OF length_headerTelegram dec])
  moreover have "dom (Other t) = dom data - claimedCodes data"
    unfolding o by (auto simp: restrict_map_def dom_def)
  moreover have "\<forall>c \<in> dom (Other t). Other t c = data c"
    unfolding o by (auto simp: restrict_map_def dom_def split: if_splits)
  ultimately show ?thesis by blast
qed

theorem Other_residual_witness:
  "framed (''/abcde'' @ [CR, LF]) [CR, LF] gasReads (''!6010'' @ [CR, LF])
   \<and> parseLines (rawLinesOf gasReads) = Ok gasMap
   \<and> (\<exists>t errs.
         readTelegram decimalFloat
           (telegramReads (''/abcde'' @ [CR, LF]) [CR, LF] gasReads (''!6010'' @ [CR, LF]) None @ [])
           = Returns (Some t) errs []
         \<and> Other t = [''1-0:1.7.0'' \<mapsto> [''1.193*kW'']])"
  using Other_residual [OF gas_framed gas_checksum gas_parseLines, of decimalFloat None "[]"]
    gas_framed gas_parseLines
  unfolding gas_claimed by blast

text \<open>
  C9: when the first raw line does not begin with \<open>(\<close> (or there is no line), the merge
  of \<open>parseLines\<close> never indexes outside its list of lines, and a line that begins with
  \<open>(\<close> is appended onto the last line accumulated and onto no other; when the first raw
  line begins with \<open>(\<close> the index \<open>len(lines)-1\<close> is taken on the empty list, which
  panics, and this is the only way for \<open>parseLines\<close> to panic.
\<close>

theorem mergeLines_safe:
  "((\<exists>lines. mergeLines [] rawLines = Some lines) \<longleftrightarrow>
      (rawLines = [] \<or> \<not> HasPrefix (hd rawLines) ''(''))
   \<and> ((parseLines rawLines = Panic) \<longleftrightarrow> (rawLines \<noteq> [] \<and> HasPrefix (hd rawLines) ''(''))
   \<and> (\<forall>lines l. mergeLines [] rawLines = Some lines \<longrightarrow>
        mergeLines [] (rawLines @ [l]) =
          (if HasPrefix l ''(''
           then (if lines = [] then None else Some (butlast lines @ [last lines @ l]))
           else Some (lines @ [l])))"
proof -
  have safe: "(\<exists>lines. mergeLines [] rawLines = Some lines) \<longleftrightarrow>
      (rawLines = [] \<or> \<not> HasPrefix (hd rawLines) ''('')"
  proof (cases rawLines)
    case Nil
    then show ?thesis by simp
  next
    case (Cons r rs)
    show ?thesis
    proof (cases "HasPrefix r ''(''")
      case True
      with Cons show ?thesis by (simp add: Let_def)
    next
      case False
      from mergeLines_nonempty [of "[r]" rs] obtain ls where "mergeLines [r] rs = Some ls" by auto
      with False Cons show ?thesis by simp
    qed
  qed
  have "(parseLines rawLines = Panic) \<longleftrightarrow> mergeLines [] rawLines = None"
    using parseEach_not_Panic by (auto simp: parseLines_def split: option.splits)
  with safe have panic:
    "(parseLines rawLines = Panic) \<longleftrightarrow> (rawLines \<noteq> [] \<and> HasPrefix (hd rawLines) ''('')"
    by auto
  have step: "mergeLines [] (rawLines @ [l]) =
          (if HasPrefix l ''(''
           then (if lines = [] then None else Some (butlast lines @ [last lines @ l]))
           else Some (lines @ [l]))"
    if m: "mergeLines [] rawLines = Some lines" for lines l
  proof (cases "lines = []")
    case True
    with m show ?thesis by (simp add: mergeLines_append Let_def)
  next
    case False
    with m mergeLines_last [OF False, of l] show ?thesis by (simp add: mergeLines_append)
  qed
  from safe panic step show ?thesis by blast
qed

theorem mergeLines_safe_witness:
  "(\<exists>lines. mergeLines [] [''a(1)'', ''(2)''] = Some lines)
   \<and> mergeLines [] [''a(1)''] = Some [''a(1)'']
   \<and> mergeLines [] ([''a(1)''] @ [''(2)'']) = Some [''a(1)(2)'']
   \<and> mergeLines [] [''(2)'', ''a(1)''] = None
   \<and> parseLines [''(2)'', ''a(1)''] = Panic"
  using mergeLines_safe [of "[''a(1)'', ''(2)'']"] mergeLines_safe [of "[''a(1)'']"]
    mergeLines_safe [of "[''(2)'', ''a(1)'']"]
  by (simp add: HasPrefix_def Let_def)

text \<open>
  C10: an optional field (a pointer, of index \<open>i\<close>) whose code is in the map, and is the
  code of no earlier field, with arguments that fail validation. The loop of \<open>fillStruct\<close>
  reaches the field with the code still in the map, sets the field to point to a fresh
  zero value, removes the code and appends the error of the arguments; in what
  \<open>fillStruct\<close> returns the field points to that zero value, which is not the nil pointer
  of a field whose code is absent, and the error is among the errors.
\<close>

theorem invalid_optional_field:
  assumes "list_all wellTagged st"
    and "i < length st"
    and "length sv = length st"
    and "Type (st ! i) = TPtr E"
    and "obisTag (st ! i) = Some obis"
    and "data obis = Some args"
    and "obis \<notin> obisCodes (take i st)"
    and "argsError pf obis (typeTag (st ! i)) args = Some e"
  shows "\<exists>sv1 data1 ret1 sv' data' errs.
           fillFields pf (take i st) 0 (sv, data, []) = Some (sv1, data1, ret1)
           \<and> fillField pf (st ! i) i (sv1, data1, ret1)
               = Some (sv1[i := VPtr (Some (zero E))], data1(obis := None), ret1 @ [e])
           \<and> fillStruct pf st sv data = Some (sv', data', errs)
           \<and> sv' ! i = VPtr (Some (zero E))
           \<and> sv' ! i \<noteq> zero (Type (st ! i))
           \<and> e \<in> set errs
           \<and> fieldLevel e"
proof -
  obtain s1 where "fillFields pf (take i st) 0 (sv, data, []) = Some s1"
    using fillFields_wellTagged [where fs = "take i st" and pf = pf and k = 0 and s = "(sv, data, [])"]
      list_all_take [OF assms(1)]
    by auto
  then obtain sv1 data1 ret1 where
    pre: "fillFields pf (take i st) 0 (sv, data, []) = Some (sv1, data1, ret1)"
    by (cases s1) auto
  have d1: "data1 obis = Some args"
    using fillFields_data [OF pre] assms(6,7) by (simp add: restrict_map_def)
  have l1: "length sv1 = length st"
    using fillFields_sv [OF pre] assms(3) by simp
  have ptr: "Kind (Type (st ! i)) = Ptr" and el: "fieldElem (st ! i) = E"
    using assms(4) by (simp_all add: fieldElem_def)
  have step: "fillField pf (st ! i) i (sv1, data1, ret1)
               = Some (sv1[i := VPtr (Some (zero E))], data1(obis := None), ret1 @ [e])"
    using fillField_invalid [where data = data1 and obis = obis, OF assms(5) d1 assms(8)] ptr el
    by simp
  obtain s2 where "fillFields pf (drop (Suc i) st) (Suc i)
                     (sv1[i := VPtr (Some (zero E))], data1(obis := None), ret1 @ [e]) = Some s2"
    using fillFields_wellTagged [where fs = "drop (Suc i) st" and pf = pf and k = "Suc i"
            and s = "(sv1[i := VPtr (Some (zero E))], data1(obis := None), ret1 @ [e])"]
      list_all_drop [OF assms(1)]
    by auto
  then obtain sv' data' errs where
    post: "fillFields pf (drop (Suc i) st) (Suc i)
             (sv1[i := VPtr (Some (zero E))], data1(obis := None), ret1 @ [e])
           = Some (sv', data', errs)"
    by (cases s2) auto
  have whole: "fillStruct pf st sv data = Some (sv', data', errs)"
    unfolding fillStruct_def fillFields_split [OF assms(2)] pre using step post by simp
  have "sv' ! i = (sv1[i := VPtr (Some (zero E))]) ! i"
    using fillFields_sv [OF post] by simp
  then have set: "sv' ! i = VPtr (Some (zero E))"
    using l1 assms(2) by simp
  have differ: "sv' ! i \<noteq> zero (Type (st ! i))"
    unfolding set assms(4) by (rule zero_ptr_differs)
  from fillFields_errors [OF post] have err: "e \<in> set errs" by auto
  have fl: "fieldLevel e"
    using fillField_fieldLevel [OF step] by auto
  from pre step whole set differ err fl show ?thesis
    by (intro exI [of _ sv1] exI [of _ data1] exI [of _ ret1] exI [of _ sv'] exI [of _ data']
          exI [of _ errs]) simp
qed

theorem invalid_optional_field_witness:
  "thresholdMap ''0-0:17.0.0'' = Some [''12*XYZ'']
   \<and> argsError decimalFloat ''0-0:17.0.0'' ''unit'' [''12*XYZ'']
       = Some (UnitError ''0-0:17.0.0'' (UnknownUnit ''12*XYZ''))
   \<and> (\<exists>sv' data' errs.
         fillStruct decimalFloat ElectricityData (zeroStruct ElectricityData) thresholdMap
           = Some (sv', data', errs)
         \<and> sv' ! 7 = VPtr (Some (VFloat (Finite 0)))
         \<and> UnitError ''0-0:17.0.0'' (UnknownUnit ''12*XYZ'') \<in> set errs)
   \<and> (\<exists>sv' data' errs.
         fillStruct decimalFloat ElectricityData (zeroStruct ElectricityData) thresholdMap
           = Some (sv', data', errs)
         \<and> sv' ! 8 = VPtr (Some (VString []))
         \<and> WrongNumberOfArguments ''0-0:96.3.10'' \<in> set errs)"
proof -
  have m: "thresholdMap ''0-0:17.0.0'' = Some [''12*XYZ'']" "thresholdMap ''0-0:96.3.10'' = Some []"
    by (simp_all add: thresholdMap_def)
  have i7: "(7::nat) < length ElectricityData" and i8: "(8::nat) < length ElectricityData"
    by (simp_all add: ElectricityData_fields)
  have len: "length (zeroStruct ElectricityData) = length ElectricityData"
    by (simp add: zeroStruct_def)
  have a7: "argsError decimalFloat ''0-0:17.0.0'' (typeTag (ElectricityData ! 7)) [''12*XYZ'']
     = Some (UnitError ''0-0:17.0.0'' (UnknownUnit ''12*XYZ''))"
    unfolding ElectricityData_fields by (rule threshold_args)
  have a8: "argsError decimalFloat ''0-0:96.3.10'' (typeTag (ElectricityData ! 8)) []
     = Some (WrongNumberOfArguments ''0-0:96.3.10'')"
    unfolding ElectricityData_fields by (rule threshold_args)
  from invalid_optional_field [where st = ElectricityData and i = 7 and obis = "''0-0:17.0.0''"
      and data = thresholdMap and pf = decimalFloat and sv = "zeroStruct ElectricityData"
      and E = TFloat32 and args = "[''12*XYZ'']",
      OF wellTagged_ElectricityData i7 len ElectricityData_fields(3) ElectricityData_fields(2)
         m(1) ElectricityData_codes(1) a7]
  have a: "\<exists>sv' data' errs.
         fillStruct decimalFloat ElectricityData (zeroStruct ElectricityData) thresholdMap
           = Some (sv', data', errs)
         \<and> sv' ! 7 = VPtr (Some (VFloat (Finite 0)))
         \<and> UnitError ''0-0:17.0.0'' (UnknownUnit ''12*XYZ'') \<in> set errs"
    by auto
  from invalid_optional_field [where st = ElectricityData and i = 8 and obis = "''0-0:96.3.10''"
      and data = thresholdMap and pf = decimalFloat and sv = "zeroStruct ElectricityData"
      and E = TString and args = "[]",
      OF wellTagged_ElectricityData i8 len ElectricityData_fields(6) ElectricityData_fields(5)
         m(2) ElectricityData_codes(2) a8]
  have b: "\<exists>sv' data' errs.
         fillStruct decimalFloat ElectricityData (zeroStruct ElectricityData) thresholdMap
           = Some (sv', data', errs)
         \<and> sv' ! 8 = VPtr (Some (VString []))
         \<and> WrongNumberOfArguments ''0-0:96.3.10'' \<in> set errs"
    by auto
  from a b m(1) threshold_args(1) show ?thesis by blast
qed

end
